theory Spec2Isabelle
  imports Complex_Main "HOL-Library.Sublist"
begin

section \<open>Python values and effects\<close>

text \<open>
  The program is Python. Its own code has no \<^verbatim>\<open>raise\<close>; every exception comes out of a library
  call (OpenCV, PIL, pytesseract, pyautogui, configparser, the platform's window query) or out of
  arithmetic (a division by zero, a float out of range) or out of \<^verbatim>\<open>time.sleep\<close> on a negative
  delay; a \<^verbatim>\<open>KeyboardInterrupt\<close> comes from the user. An exception is a value of \<open>py_error\<close>,
  and a call that can raise returns \<open>py_error + 'a\<close> with \<open>Inl\<close> for the exception.
\<close>

datatype py_error = CvError | GrabError | OcrError | InputError | OsError | ConfigError
  | ZeroDivisionError | OverflowError | ValueError | KeyboardInterrupt

text \<open>A window rectangle is \<open>(x, y, width, height)\<close>; a screenshot region is
  \<open>(left, top, right, bottom)\<close>. Python integers are unbounded.\<close>

type_synonym rect = "int \<times> int \<times> int \<times> int"
type_synonym region = "int \<times> int \<times> int \<times> int"

text \<open>What the process does to the outside: log records, sleeps (seconds), mouse clicks and
  the request to bring the game window to the front. A log record carries the level and the
  text of the message; where the source formats an exception or a pair of coordinates into the
  message, the record keeps the fixed part of the text.\<close>

datatype log_level = DEBUG | INFO | WARNING | ERROR

datatype effect = Log log_level string | Sleep real | Click int int | Focus

section \<open>window\_detector.py: class WindowDetector\<close>

text \<open>
  \<open>window_rect\<close> is the cached rectangle. The platform query \<^verbatim>\<open>find_uma_musume_window\<close>
  (osascript, win32gui, wmctrl) is outside the model: what it would answer if it were called now
  is an argument \<open>os\<close> of type \<open>py_error + rect option\<close>, read only where the source calls it.
\<close>

record window_detector =
  window_rect :: "rect option"

definition get_game_region ::
  "(py_error + rect option) \<Rightarrow> window_detector \<Rightarrow> (py_error + region option) \<times> window_detector"
where
  "get_game_region os wd =
     (case (if window_rect wd = None
            then (case os of Inl e \<Rightarrow> Inl e | Inr r \<Rightarrow> Inr (wd\<lparr>window_rect := r\<rparr>))
            else Inr wd) of
        Inl e \<Rightarrow> (Inl e, wd)
      | Inr wd' \<Rightarrow>
          (case window_rect wd' of
             Some (x, y, width, height) \<Rightarrow> (Inr (Some (x, y, x + width, y + height)), wd')
           | None \<Rightarrow> (Inr None, wd')))"

text \<open>
  The coordinate conversions compute in Python floats. \<open>fl\<close> is the rounding of a real result
  to a float. A result whose magnitude reaches \<open>2 ^ 1024 - 2 ^ 970\<close> is out of the range of a
  float: the division of two integers and the conversion of an integer then raise
  \<^verbatim>\<open>OverflowError\<close>; a product or a sum becomes an infinity, on which \<^verbatim>\<open>int\<close> raises
  \<^verbatim>\<open>OverflowError\<close>, and since nothing happens between the two inside the one expression
  \<^verbatim>\<open>int(window_x + (rel_x * window_w))\<close>, the model raises at the product or sum.
  \<^verbatim>\<open>a / b\<close> on integers is \<open>true_div\<close>; \<^verbatim>\<open>f * n\<close> converts \<open>n\<close> and rounds the product;
  \<^verbatim>\<open>n + f\<close> converts \<open>n\<close> and rounds the sum; \<^verbatim>\<open>int(f)\<close> truncates towards zero. The arguments
  \<open>rel_x\<close>, \<open>rel_y\<close> of \<^verbatim>\<open>get_absolute_coordinates\<close> are finite floats. \<open>screen\<close> is
  \<^verbatim>\<open>pyautogui.size()\<close>.
\<close>

definition double_overflow :: "real \<Rightarrow> bool" where
  "double_overflow r \<longleftrightarrow> 2 ^ 1024 - 2 ^ 970 \<le> \<bar>r\<bar>"

definition py_int :: "real \<Rightarrow> int" where
  "py_int r = (if 0 \<le> r then \<lfloor>r\<rfloor> else \<lceil>r\<rceil>)"

definition to_float :: "(real \<Rightarrow> real) \<Rightarrow> int \<Rightarrow> py_error + real" where
  "to_float fl n =
     (if double_overflow (of_int n) then Inl OverflowError else Inr (fl (of_int n)))"

definition true_div :: "(real \<Rightarrow> real) \<Rightarrow> int \<Rightarrow> int \<Rightarrow> py_error + real" where
  "true_div fl a b =
     (if b = 0 then Inl ZeroDivisionError
      else if double_overflow (of_int a / of_int b) then Inl OverflowError
      else Inr (fl (of_int a / of_int b)))"

definition float_mul_int :: "(real \<Rightarrow> real) \<Rightarrow> real \<Rightarrow> int \<Rightarrow> py_error + real" where
  "float_mul_int fl f n =
     (case to_float fl n of
        Inl e \<Rightarrow> Inl e
      | Inr v \<Rightarrow> if double_overflow (f * v) then Inl OverflowError else Inr (fl (f * v)))"

definition int_add_float :: "(real \<Rightarrow> real) \<Rightarrow> int \<Rightarrow> real \<Rightarrow> py_error + real" where
  "int_add_float fl n f =
     (case to_float fl n of
        Inl e \<Rightarrow> Inl e
      | Inr v \<Rightarrow> if double_overflow (v + f) then Inl OverflowError else Inr (fl (v + f)))"

definition get_relative_coordinates ::
  "(real \<Rightarrow> real) \<Rightarrow> int \<times> int \<Rightarrow> window_detector \<Rightarrow> int \<Rightarrow> int \<Rightarrow> py_error + (real \<times> real)"
where
  "get_relative_coordinates fl screen wd x y =
     (case window_rect wd of
        Some (window_x, window_y, window_w, window_h) \<Rightarrow>
          (case true_div fl (x - window_x) window_w of
             Inl e \<Rightarrow> Inl e
           | Inr rel_x \<Rightarrow>
               (case true_div fl (y - window_y) window_h of
                  Inl e \<Rightarrow> Inl e
                | Inr rel_y \<Rightarrow> Inr (rel_x, rel_y)))
      | None \<Rightarrow>
          (case true_div fl x (fst screen) of
             Inl e \<Rightarrow> Inl e
           | Inr rel_x \<Rightarrow>
               (case true_div fl y (snd screen) of
                  Inl e \<Rightarrow> Inl e
                | Inr rel_y \<Rightarrow> Inr (rel_x, rel_y))))"

text \<open>\<^verbatim>\<open>int(origin + (rel * extent))\<close> and \<^verbatim>\<open>int(rel * extent)\<close>.\<close>

definition window_to_screen ::
  "(real \<Rightarrow> real) \<Rightarrow> int \<Rightarrow> int \<Rightarrow> real \<Rightarrow> py_error + int" where
  "window_to_screen fl origin extent rel =
     (case float_mul_int fl rel extent of
        Inl e \<Rightarrow> Inl e
      | Inr prod_v \<Rightarrow>
          (case int_add_float fl origin prod_v of
             Inl e \<Rightarrow> Inl e
           | Inr scaled \<Rightarrow> Inr (py_int scaled)))"

definition display_to_screen :: "(real \<Rightarrow> real) \<Rightarrow> int \<Rightarrow> real \<Rightarrow> py_error + int" where
  "display_to_screen fl extent rel =
     (case float_mul_int fl rel extent of
        Inl e \<Rightarrow> Inl e
      | Inr prod_v \<Rightarrow> Inr (py_int prod_v))"

definition get_absolute_coordinates ::
  "(real \<Rightarrow> real) \<Rightarrow> int \<times> int \<Rightarrow> window_detector \<Rightarrow> real \<Rightarrow> real \<Rightarrow> py_error + (int \<times> int)"
where
  "get_absolute_coordinates fl screen wd rel_x rel_y =
     (case window_rect wd of
        Some (window_x, window_y, window_w, window_h) \<Rightarrow>
          (case window_to_screen fl window_x window_w rel_x of
             Inl e \<Rightarrow> Inl e
           | Inr abs_x \<Rightarrow>
               (case window_to_screen fl window_y window_h rel_y of
                  Inl e \<Rightarrow> Inl e
                | Inr abs_y \<Rightarrow> Inr (abs_x, abs_y)))
      | None \<Rightarrow>
          (case display_to_screen fl (fst screen) rel_x of
             Inl e \<Rightarrow> Inl e
           | Inr abs_x \<Rightarrow>
               (case display_to_screen fl (snd screen) rel_y of
                  Inl e \<Rightarrow> Inl e
                | Inr abs_y \<Rightarrow> Inr (abs_x, abs_y))))"

section \<open>uma\_automation.py: class UmaMusumeAutomation\<close>

subsection \<open>State\<close>

text \<open>
  The configuration is read through \<^verbatim>\<open>getboolean\<close> and \<^verbatim>\<open>float(config.get(...))\<close> with
  in-code fallbacks; both raise on a malformed value. A field holds what the read yields.
\<close>

record config_store =
  window_detection_enabled :: "py_error + bool"
  skip_races :: "py_error + bool"
  screenshot_delay :: "py_error + real"

record stats =
  training_sessions :: int
  races_completed :: int
  events_handled :: int
  errors_encountered :: int

text \<open>
  The fields of the object that the loop and its handlers use (\<^verbatim>\<open>screen_width\<close>,
  \<^verbatim>\<open>screen_height\<close>, \<^verbatim>\<open>current_screen\<close>, \<^verbatim>\<open>turn_count\<close> and \<^verbatim>\<open>stats\<close> are assigned in
  the constructor and not used again). \<open>detector\<close> is the \<^verbatim>\<open>window_detector\<close> object,
  \<open>templates\<close> is the dictionary filled by \<^verbatim>\<open>load_templates\<close>, \<open>session_stats\<close> the dictionary
  of the four counters; \<open>trace\<close> records the effects of the process in the order they happen.
\<close>

record 't automation =
  running :: bool
  config :: config_store
  detector :: window_detector
  game_region :: "region option"
  templates :: "string \<rightharpoonup> 't"
  session_stats :: stats
  trace :: "effect list"

text \<open>
  The libraries, as functions of their arguments: \<open>match_template\<close> is
  \<^verbatim>\<open>cv2.matchTemplate\<close> followed by \<^verbatim>\<open>cv2.minMaxLoc\<close> and yields \<open>(max_val, max_loc)\<close>;
  \<open>shape\<close> is \<open>(h, w)\<close> of a template; \<open>image_to_string\<close> is the cropping, the grey-scale
  conversion, the Otsu threshold and pytesseract. A score and a threshold are read as the
  reals they denote; the code only compares them.
\<close>

record ('f, 't) libs =
  match_template :: "'f \<Rightarrow> 't \<Rightarrow> py_error + (real \<times> int \<times> int)"
  shape :: "'t \<Rightarrow> int \<times> int"
  image_to_string :: "'f \<Rightarrow> region option \<Rightarrow> py_error + string"

definition emit :: "effect \<Rightarrow> 't automation \<Rightarrow> 't automation" where
  "emit e s = s\<lparr>trace := trace s @ [e]\<rparr>"

definition count_error :: "'t automation \<Rightarrow> 't automation" where
  "count_error s =
     s\<lparr>session_stats := (session_stats s)\<lparr>errors_encountered :=
          errors_encountered (session_stats s) + 1\<rparr>\<rparr>"

subsection \<open>capture\_screen\<close>

text \<open>
  \<open>os\<close> is the platform's answer to a window query, \<open>grab\<close> is \<^verbatim>\<open>ImageGrab.grab\<close> with the
  conversion to an OpenCV array. Every exception inside the \<^verbatim>\<open>try\<close> is caught, logged and
  turned into \<^verbatim>\<open>None\<close>; assignments made before it stay.
\<close>

definition capture_failed :: "'t automation \<Rightarrow> 'f option \<times> 't automation" where
  "capture_failed s = (None, emit (Log ERROR ''Failed to capture screen'') s)"

definition capture_screen ::
  "(py_error + rect option) \<Rightarrow> (region option \<Rightarrow> py_error + 'f) \<Rightarrow> region option
     \<Rightarrow> 't automation \<Rightarrow> 'f option \<times> 't automation"
where
  "capture_screen os grab region s =
     (case window_detection_enabled (config s) of
        Inl e \<Rightarrow> capture_failed s
      | Inr enabled \<Rightarrow>
          (case (if enabled
                 then (case get_game_region os (detector s) of
                         (Inl e, wd) \<Rightarrow> Inl (s\<lparr>detector := wd\<rparr>)
                       | (Inr g, wd) \<Rightarrow> Inr (s\<lparr>detector := wd, game_region := g\<rparr>))
                 else Inr s) of
             Inl s1 \<Rightarrow> capture_failed s1
           | Inr s1 \<Rightarrow>
               (case (if region = None \<and> game_region s1 \<noteq> None
                      then (game_region s1, emit (Log DEBUG ''Using game region'') s1)
                      else (region, s1)) of
                  (region', s2) \<Rightarrow>
                    (case grab region' of
                       Inl e \<Rightarrow> capture_failed s2
                     | Inr screenshot_cv \<Rightarrow> (Some screenshot_cv, s2)))))"

subsection \<open>find\_template\<close>

text \<open>
  The screenshot is \<open>None\<close> when a capture failed; OpenCV raises on it. A name that is not a key
  of \<open>templates\<close> is answered before the screenshot is looked at.
\<close>

definition find_template ::
  "('f, 't) libs \<Rightarrow> string \<Rightarrow> 'f option \<Rightarrow> real \<Rightarrow> 't automation
     \<Rightarrow> (py_error + region option) \<times> 't automation"
where
  "find_template L template_name screenshot threshold s =
     (case templates s template_name of
        None \<Rightarrow> (Inr None, emit (Log WARNING (''Template '' @ template_name @ '' not found'')) s)
      | Some template \<Rightarrow>
          (case (case screenshot of None \<Rightarrow> Inl CvError
                 | Some frame \<Rightarrow> match_template L frame template) of
             Inl e \<Rightarrow> (Inl e, s)
           | Inr (max_val, x, y) \<Rightarrow>
               if max_val \<ge> threshold
               then (case shape L template of (h, w) \<Rightarrow> (Inr (Some (x, y, x + w, y + h)), s))
               else (Inr None, s)))"

subsection \<open>ocr\_text\<close>

text \<open>
  \<^verbatim>\<open>str.strip\<close> and \<^verbatim>\<open>str.lower\<close> on ASCII text: the white space of \<^verbatim>\<open>str.isspace\<close> (codes 9 to
  13 and 28 to 32) is removed at both ends, and the letters A to Z are mapped to a to z. The
  image is \<open>None\<close> when a capture failed; the grey-scale conversion raises on it, inside the
  \<^verbatim>\<open>try\<close>.
\<close>

definition py_isspace :: "char \<Rightarrow> bool" where
  "py_isspace c = (let n = (of_char c :: nat) in (9 \<le> n \<and> n \<le> 13) \<or> (28 \<le> n \<and> n \<le> 32))"

definition strip :: "string \<Rightarrow> string" where
  "strip text = rev (dropWhile py_isspace (rev (dropWhile py_isspace text)))"

definition lower_char :: "char \<Rightarrow> char" where
  "lower_char c = (let n = (of_char c :: nat) in if 65 \<le> n \<and> n \<le> 90 then char_of (n + 32) else c)"

definition lower :: "string \<Rightarrow> string" where
  "lower text = map lower_char text"

definition ocr_text ::
  "('f, 't) libs \<Rightarrow> 'f option \<Rightarrow> region option \<Rightarrow> 't automation \<Rightarrow> string \<times> 't automation"
where
  "ocr_text L img region s =
     (case (case img of None \<Rightarrow> Inl CvError | Some frame \<Rightarrow> image_to_string L frame region) of
        Inl e \<Rightarrow> ([], emit (Log ERROR ''OCR failed'') s)
      | Inr text \<Rightarrow> (strip text, s))"

subsection \<open>click\_at\<close>

text \<open>\<open>click_ok\<close> tells whether \<^verbatim>\<open>pyautogui.click\<close> returns; \<^verbatim>\<open>focus_game_window\<close> catches
  its own exceptions and its result is not used. \<^verbatim>\<open>time.sleep\<close> raises on a negative delay,
  after the click and inside the \<^verbatim>\<open>try\<close>.\<close>

definition click_failed :: "'t automation \<Rightarrow> 't automation" where
  "click_failed s = count_error (emit (Log ERROR ''Failed to click'') s)"

definition click_at :: "bool \<Rightarrow> int \<Rightarrow> int \<Rightarrow> real \<Rightarrow> 't automation \<Rightarrow> 't automation" where
  "click_at click_ok x y delay s =
     (case window_detection_enabled (config s) of
        Inl e \<Rightarrow> click_failed s
      | Inr enabled \<Rightarrow>
          (let s1 = (if enabled then emit (Sleep 0.1) (emit Focus s) else s) in
           if click_ok
           then (if delay < 0 then click_failed (emit (Click x y) s1)
                 else emit (Log INFO ''Clicked'') (emit (Sleep delay) (emit (Click x y) s1)))
           else click_failed s1))"

subsection \<open>detect\_screen\<close>

text \<open>A returned tuple is truthy, \<^verbatim>\<open>None\<close> is not; the default threshold is 0.8.\<close>

definition detect_screen ::
  "('f, 't) libs \<Rightarrow> 'f option \<Rightarrow> 't automation \<Rightarrow> (py_error + string) \<times> 't automation"
where
  "detect_screen L screenshot s =
     (case find_template L ''main_menu'' screenshot 0.8 s of
        (Inl e, s1) \<Rightarrow> (Inl e, s1)
      | (Inr (Some m), s1) \<Rightarrow> (Inr ''main_menu'', s1)
      | (Inr None, s1) \<Rightarrow>
     (case find_template L ''training_screen'' screenshot 0.8 s1 of
        (Inl e, s2) \<Rightarrow> (Inl e, s2)
      | (Inr (Some m), s2) \<Rightarrow> (Inr ''training_screen'', s2)
      | (Inr None, s2) \<Rightarrow>
     (case find_template L ''race_screen'' screenshot 0.8 s2 of
        (Inl e, s3) \<Rightarrow> (Inl e, s3)
      | (Inr (Some m), s3) \<Rightarrow> (Inr ''race_screen'', s3)
      | (Inr None, s3) \<Rightarrow>
     (case find_template L ''event_screen'' screenshot 0.8 s3 of
        (Inl e, s4) \<Rightarrow> (Inl e, s4)
      | (Inr (Some m), s4) \<Rightarrow> (Inr ''event_screen'', s4)
      | (Inr None, s4) \<Rightarrow> (Inr ''unknown'', s4)))))"

subsection \<open>Handlers\<close>

text \<open>
  Each handler takes a fresh screenshot (\<open>os\<close>, \<open>grab\<close>), looks for its button and clicks the
  centre of the match. A handler returns whether it acted; an exception of
  \<^verbatim>\<open>find_template\<close> or of a configuration read leaves the handler.
\<close>

definition centre :: "region \<Rightarrow> int \<times> int" where
  "centre btn = (case btn of (x1, y1, x2, y2) \<Rightarrow> ((x1 + x2) div 2, (y1 + y2) div 2))"

definition click_centre :: "bool \<Rightarrow> region \<Rightarrow> 't automation \<Rightarrow> 't automation" where
  "click_centre click_ok btn s = (case centre btn of (x, y) \<Rightarrow> click_at click_ok x y 0.5 s)"

definition handle_main_menu ::
  "('f, 't) libs \<Rightarrow> (py_error + rect option) \<Rightarrow> (region option \<Rightarrow> py_error + 'f) \<Rightarrow> bool
     \<Rightarrow> 't automation \<Rightarrow> (py_error + bool) \<times> 't automation"
where
  "handle_main_menu L os grab click_ok s =
     (case capture_screen os grab None (emit (Log INFO ''Handling main menu'') s) of
        (screenshot, s1) \<Rightarrow>
          (case find_template L ''training_button'' screenshot 0.8 s1 of
             (Inl e, s2) \<Rightarrow> (Inl e, s2)
           | (Inr (Some training_btn), s2) \<Rightarrow> (Inr True, click_centre click_ok training_btn s2)
           | (Inr None, s2) \<Rightarrow> (Inr False, s2)))"

fun try_training_options ::
  "('f, 't) libs \<Rightarrow> string list \<Rightarrow> 'f option \<Rightarrow> bool \<Rightarrow> 't automation
     \<Rightarrow> (py_error + bool) \<times> 't automation"
where
  "try_training_options L [] screenshot click_ok s = (Inr False, s)"
| "try_training_options L (option # options) screenshot click_ok s =
     (case find_template L option screenshot 0.8 s of
        (Inl e, s1) \<Rightarrow> (Inl e, s1)
      | (Inr (Some btn), s1) \<Rightarrow> (Inr True, click_centre click_ok btn s1)
      | (Inr None, s1) \<Rightarrow> try_training_options L options screenshot click_ok s1)"

definition training_options :: "string list" where
  "training_options = [''speed_train'', ''stamina_train'', ''power_train'',
                       ''guts_train'', ''intelligence_train'', ''technique_train'']"

definition handle_training_screen ::
  "('f, 't) libs \<Rightarrow> (py_error + rect option) \<Rightarrow> (region option \<Rightarrow> py_error + 'f) \<Rightarrow> bool
     \<Rightarrow> 't automation \<Rightarrow> (py_error + bool) \<times> 't automation"
where
  "handle_training_screen L os grab click_ok s =
     (case capture_screen os grab None (emit (Log INFO ''Handling training screen'') s) of
        (screenshot, s1) \<Rightarrow> try_training_options L training_options screenshot click_ok s1)"

definition handle_event_screen ::
  "('f, 't) libs \<Rightarrow> (py_error + rect option) \<Rightarrow> (region option \<Rightarrow> py_error + 'f) \<Rightarrow> bool
     \<Rightarrow> 't automation \<Rightarrow> (py_error + bool) \<times> 't automation"
where
  "handle_event_screen L os grab click_ok s =
     (case capture_screen os grab None (emit (Log INFO ''Handling event screen'') s) of
        (screenshot, s1) \<Rightarrow>
          (case find_template L ''confirm_button'' screenshot 0.8 s1 of
             (Inl e, s2) \<Rightarrow> (Inl e, s2)
           | (Inr (Some confirm_btn), s2) \<Rightarrow> (Inr True, click_centre click_ok confirm_btn s2)
           | (Inr None, s2) \<Rightarrow> (Inr False, s2)))"

definition race_start ::
  "('f, 't) libs \<Rightarrow> 'f option \<Rightarrow> bool \<Rightarrow> 't automation \<Rightarrow> (py_error + bool) \<times> 't automation"
where
  "race_start L screenshot click_ok s =
     (case find_template L ''race_start_button'' screenshot 0.8 s of
        (Inl e, s1) \<Rightarrow> (Inl e, s1)
      | (Inr (Some start_btn), s1) \<Rightarrow> (Inr True, click_centre click_ok start_btn s1)
      | (Inr None, s1) \<Rightarrow> (Inr False, s1))"

definition handle_race_screen ::
  "('f, 't) libs \<Rightarrow> (py_error + rect option) \<Rightarrow> (region option \<Rightarrow> py_error + 'f) \<Rightarrow> bool
     \<Rightarrow> 't automation \<Rightarrow> (py_error + bool) \<times> 't automation"
where
  "handle_race_screen L os grab click_ok s =
     (case capture_screen os grab None (emit (Log INFO ''Handling race screen'') s) of
        (screenshot, s1) \<Rightarrow>
          (case skip_races (config s1) of
             Inl e \<Rightarrow> (Inl e, s1)
           | Inr True \<Rightarrow>
               (case find_template L ''skip_race_button'' screenshot 0.8 s1 of
                  (Inl e, s2) \<Rightarrow> (Inl e, s2)
                | (Inr (Some skip_btn), s2) \<Rightarrow> (Inr True, click_centre click_ok skip_btn s2)
                | (Inr None, s2) \<Rightarrow> race_start L screenshot click_ok s2)
           | Inr False \<Rightarrow> race_start L screenshot click_ok s1))"

definition count_race :: "'t automation \<Rightarrow> 't automation" where
  "count_race s =
     s\<lparr>session_stats := (session_stats s)\<lparr>races_completed :=
          races_completed (session_stats s) + 1\<rparr>\<rparr>"

definition count_training :: "'t automation \<Rightarrow> 't automation" where
  "count_training s =
     s\<lparr>session_stats := (session_stats s)\<lparr>training_sessions :=
          training_sessions (session_stats s) + 1\<rparr>\<rparr>"

definition count_event :: "'t automation \<Rightarrow> 't automation" where
  "count_event s =
     s\<lparr>session_stats := (session_stats s)\<lparr>events_handled :=
          events_handled (session_stats s) + 1\<rparr>\<rparr>"

definition handle_race_result ::
  "('f, 't) libs \<Rightarrow> (py_error + rect option) \<Rightarrow> (region option \<Rightarrow> py_error + 'f) \<Rightarrow> bool
     \<Rightarrow> 't automation \<Rightarrow> (py_error + bool) \<times> 't automation"
where
  "handle_race_result L os grab click_ok s =
     (case capture_screen os grab None (emit (Log INFO ''Handling race result screen'') s) of
        (screenshot, s1) \<Rightarrow>
          (case find_template L ''continue_button'' screenshot 0.8 s1 of
             (Inl e, s2) \<Rightarrow> (Inl e, s2)
           | (Inr (Some continue_btn), s2) \<Rightarrow>
               (Inr True, count_race (click_centre click_ok continue_btn s2))
           | (Inr None, s2) \<Rightarrow> (Inr False, s2)))"

definition handle_training_result ::
  "('f, 't) libs \<Rightarrow> (py_error + rect option) \<Rightarrow> (region option \<Rightarrow> py_error + 'f) \<Rightarrow> bool
     \<Rightarrow> 't automation \<Rightarrow> (py_error + bool) \<times> 't automation"
where
  "handle_training_result L os grab click_ok s =
     (case capture_screen os grab None (emit (Log INFO ''Handling training result screen'') s) of
        (screenshot, s1) \<Rightarrow>
          (case find_template L ''continue_button'' screenshot 0.8 s1 of
             (Inl e, s2) \<Rightarrow> (Inl e, s2)
           | (Inr (Some continue_btn), s2) \<Rightarrow>
               (Inr True, count_training (click_centre click_ok continue_btn s2))
           | (Inr None, s2) \<Rightarrow> (Inr False, s2)))"

definition handle_choice_screen ::
  "('f, 't) libs \<Rightarrow> (py_error + rect option) \<Rightarrow> (region option \<Rightarrow> py_error + 'f) \<Rightarrow> bool
     \<Rightarrow> 't automation \<Rightarrow> (py_error + bool) \<times> 't automation"
where
  "handle_choice_screen L os grab click_ok s =
     (case capture_screen os grab None (emit (Log INFO ''Handling choice screen'') s) of
        (screenshot, s1) \<Rightarrow>
          (case ocr_text L screenshot None s1 of
             (choice_text, s2) \<Rightarrow>
               (case find_template L ''choice_option_1'' screenshot 0.8
                       (emit (Log INFO (''Choice text: '' @ choice_text)) s2) of
                  (Inl e, s3) \<Rightarrow> (Inl e, s3)
                | (Inr (Some option_btn), s3) \<Rightarrow>
                    (Inr True, count_event (click_centre click_ok option_btn s3))
                | (Inr None, s3) \<Rightarrow> (Inr False, s3))))"

subsection \<open>check\_for\_errors\<close>

text \<open>\<^verbatim>\<open>indicator in screenshot_text\<close> is the substring test, \<open>sublist\<close>; the indicators are
  tried in the order of the list and the first hit returns.\<close>

definition error_indicators :: "string list" where
  "error_indicators = [''error'', ''failed'', ''connection lost'', ''retry'']"

fun first_indicator :: "string list \<Rightarrow> string \<Rightarrow> string option" where
  "first_indicator [] screenshot_text = None"
| "first_indicator (indicator # indicators) screenshot_text =
     (if sublist indicator screenshot_text then Some indicator
      else first_indicator indicators screenshot_text)"

definition check_for_errors ::
  "('f, 't) libs \<Rightarrow> 'f option \<Rightarrow> 't automation \<Rightarrow> bool \<times> 't automation"
where
  "check_for_errors L screenshot s =
     (case ocr_text L screenshot None s of
        (text, s1) \<Rightarrow>
          (case first_indicator error_indicators (lower text) of
             Some indicator \<Rightarrow> (True, emit (Log WARNING (''Error detected: '' @ indicator)) s1)
           | None \<Rightarrow> (False, s1)))"

subsection \<open>run\_automation\<close>

text \<open>
  One pass through the \<^verbatim>\<open>while\<close> body reads one \<open>iteration\<close> of the outside world: the
  answers to the loop's own capture (\<open>os1\<close>, \<open>grab1\<close>), to the handler's capture (\<open>os2\<close>,
  \<open>grab2\<close>), whether the click goes through, whether and where a \<^verbatim>\<open>KeyboardInterrupt\<close>
  arrives, and whether another thread assigns \<^verbatim>\<open>running = False\<close> during the pass
  (\<^verbatim>\<open>AutomationGUI.stop_automation\<close>); the flag is read only at the top of the loop.
  A \<^verbatim>\<open>KeyboardInterrupt\<close> is not an \<^verbatim>\<open>Exception\<close>, so none of the \<^verbatim>\<open>except Exception\<close> clauses
  catches it. Inside the \<^verbatim>\<open>try\<close> (\<open>In_try\<close>) it reaches the loop's
  \<^verbatim>\<open>except KeyboardInterrupt\<close> and the loop breaks; the model takes it at the start of the
  body, and one that arrives later in the body breaks the loop in the same way, after the
  effects performed so far. Inside the \<^verbatim>\<open>except Exception\<close> clause (\<open>In_except\<close>, taken during
  its \<^verbatim>\<open>time.sleep(2)\<close>) nothing catches it and it leaves \<^verbatim>\<open>run_automation\<close>; when the pass
  does not enter that clause, \<open>In_except\<close> has no effect. \<open>keyboard_interrupt\<close>: one arrives.
\<close>

datatype interrupt_point = No_interrupt | In_try | In_except

record 'f iteration =
  interrupt :: interrupt_point
  stop_request :: bool
  os1 :: "py_error + rect option"
  grab1 :: "region option \<Rightarrow> py_error + 'f"
  os2 :: "py_error + rect option"
  grab2 :: "region option \<Rightarrow> py_error + 'f"
  click_ok :: bool

definition keyboard_interrupt :: "'f iteration \<Rightarrow> bool" where
  "keyboard_interrupt ev \<longleftrightarrow> interrupt ev \<noteq> No_interrupt"

text \<open>How a pass ends: \<^verbatim>\<open>continue\<close> (or the end of the body), \<^verbatim>\<open>break\<close>, or an exception
  that leaves the loop.\<close>

datatype control = Continue | Break | Propagate py_error

definition max_unknown_screens :: int where
  "max_unknown_screens = 10"

definition fallback_continue ::
  "('f, 't) libs \<Rightarrow> 'f iteration \<Rightarrow> string \<Rightarrow> 'f option \<Rightarrow> 't automation
     \<Rightarrow> (py_error + bool) \<times> 't automation"
where
  "fallback_continue L ev current_screen screenshot s =
     (case find_template L ''continue_button'' screenshot 0.8
             (emit (Log WARNING (''Unknown screen detected: '' @ current_screen)) s) of
        (Inl e, s1) \<Rightarrow> (Inl e, s1)
      | (Inr (Some continue_btn), s1) \<Rightarrow> (Inr True, click_centre (click_ok ev) continue_btn s1)
      | (Inr None, s1) \<Rightarrow> (Inr False, s1))"

definition dispatch ::
  "('f, 't) libs \<Rightarrow> 'f iteration \<Rightarrow> string \<Rightarrow> 'f option \<Rightarrow> 't automation
     \<Rightarrow> (py_error + bool) \<times> 't automation"
where
  "dispatch L ev current_screen screenshot s =
     (if current_screen = ''main_menu''
        then handle_main_menu L (os2 ev) (grab2 ev) (click_ok ev) s
      else if current_screen = ''training_screen''
        then handle_training_screen L (os2 ev) (grab2 ev) (click_ok ev) s
      else if current_screen = ''event_screen''
        then handle_event_screen L (os2 ev) (grab2 ev) (click_ok ev) s
      else if current_screen = ''race_screen''
        then handle_race_screen L (os2 ev) (grab2 ev) (click_ok ev) s
      else if current_screen = ''race_result''
        then handle_race_result L (os2 ev) (grab2 ev) (click_ok ev) s
      else if current_screen = ''training_result''
        then handle_training_result L (os2 ev) (grab2 ev) (click_ok ev) s
      else if current_screen = ''choice_screen''
        then handle_choice_screen L (os2 ev) (grab2 ev) (click_ok ev) s
      else fallback_continue L ev current_screen screenshot s)"

definition pace :: "bool \<Rightarrow> 't automation \<Rightarrow> (py_error + unit) \<times> 't automation" where
  "pace handled s =
     (if \<not> handled
      then (case screenshot_delay (config s) of
              Inl e \<Rightarrow> (Inl e, s)
            | Inr delay \<Rightarrow>
                if delay < 0 then (Inl ValueError, s) else (Inr (), emit (Sleep delay) s))
      else (Inr (), emit (Sleep 0.5) s))"

text \<open>The body of the \<^verbatim>\<open>try\<close>; \<open>c\<close> is \<^verbatim>\<open>consecutive_unknown_screens\<close>.\<close>

definition loop_try ::
  "('f, 't) libs \<Rightarrow> 'f iteration \<Rightarrow> 't automation \<Rightarrow> int
     \<Rightarrow> (py_error + control) \<times> 't automation \<times> int"
where
  "loop_try L ev s c =
     (case capture_screen (os1 ev) (grab1 ev) None s of
        (None, s1) \<Rightarrow>
          (Inr Continue,
           emit (Sleep 1) (emit (Log WARNING ''Failed to capture screenshot'') s1), c)
      | (Some frame, s1) \<Rightarrow>
          (case check_for_errors L (Some frame) s1 of
             (True, s2) \<Rightarrow>
               (Inr Continue,
                emit (Sleep 3) (emit (Log WARNING ''Error detected, waiting before retry'') s2), c)
           | (False, s2) \<Rightarrow>
               (case detect_screen L (Some frame) s2 of
                  (Inl e, s3) \<Rightarrow> (Inl e, s3, c)
                | (Inr current_screen, s3) \<Rightarrow>
                    (let s4 = emit (Log INFO (''Current screen: '' @ current_screen)) s3;
                         c' = (if current_screen \<noteq> ''unknown'' then 0 else c + 1)
                     in if current_screen = ''unknown'' \<and> c' \<ge> max_unknown_screens
                        then (Inr Break,
                              emit (Log ERROR ''Too many unknown screens, stopping automation'') s4,
                              c')
                        else (case dispatch L ev current_screen (Some frame) s4 of
                                (Inl e, s5) \<Rightarrow> (Inl e, s5, c')
                              | (Inr handled, s5) \<Rightarrow>
                                  (case pace handled s5 of
                                     (Inl e, s6) \<Rightarrow> (Inl e, s6, c')
                                   | (Inr u, s6) \<Rightarrow> (Inr Continue, s6, c')))))))"

text \<open>The \<^verbatim>\<open>try\<close> with its two \<^verbatim>\<open>except\<close> clauses.\<close>

definition iteration_step ::
  "('f, 't) libs \<Rightarrow> 'f iteration \<Rightarrow> 't automation \<Rightarrow> int \<Rightarrow> control \<times> 't automation \<times> int"
where
  "iteration_step L ev s c =
     (if interrupt ev = In_try
      then (Break, emit (Log INFO ''Automation stopped by user'') s, c)
      else (case loop_try L ev s c of
              (Inl e, s', c') \<Rightarrow>
                (if interrupt ev = In_except
                 then (Propagate KeyboardInterrupt,
                       count_error (emit (Log ERROR ''Error in automation loop'') s'), c')
                 else (Continue,
                       emit (Sleep 2)
                         (count_error (emit (Log ERROR ''Error in automation loop'') s')),
                       c'))
            | (Inr ctl, s', c') \<Rightarrow> (ctl, s', c')))"

text \<open>
  The loop runs as long as the world keeps it running, so the model reads a finite list of
  iterations. \<open>In_loop s c\<close>: the list is used up and the loop is about to start another pass
  in state \<open>s\<close> with counter \<open>c\<close>. \<open>Returned s\<close>: \<^verbatim>\<open>run_automation\<close> has returned.
  \<open>Raised e s\<close>: an exception left \<^verbatim>\<open>run_automation\<close>.
\<close>

datatype 't outcome = Raised py_error "'t automation" | In_loop "'t automation" int
  | Returned "'t automation"

definition finish :: "'t automation \<Rightarrow> 't automation" where
  "finish s =
     emit (Log INFO ''Session stats'') (emit (Log INFO ''Automation stopped'') (s\<lparr>running := False\<rparr>))"

fun run_loop ::
  "('f, 't) libs \<Rightarrow> 'f iteration list \<Rightarrow> 't automation \<Rightarrow> int \<Rightarrow> 't outcome"
where
  "run_loop L [] s c = (if running s then In_loop s c else Returned (finish s))"
| "run_loop L (ev # evs) s c =
     (if \<not> running s then Returned (finish s)
      else (case iteration_step L ev s c of
              (Break, s', c') \<Rightarrow> Returned (finish s')
            | (Propagate e, s', c') \<Rightarrow> Raised e s'
            | (Continue, s', c') \<Rightarrow>
                run_loop L evs (if stop_request ev then s'\<lparr>running := False\<rparr> else s') c'))"

definition run_automation ::
  "('f, 't) libs \<Rightarrow> (py_error + rect option) \<Rightarrow> 'f iteration list \<Rightarrow> 't automation
     \<Rightarrow> 't outcome"
where
  "run_automation L os evs s =
     (let s1 = (emit (Log INFO ''Starting Uma Musume automation'') s)\<lparr>running := True\<rparr> in
      case window_detection_enabled (config s1) of
        Inl e \<Rightarrow> Raised e s1
      | Inr False \<Rightarrow> run_loop L evs s1 0
      | Inr True \<Rightarrow>
          (case get_game_region os (detector s1) of
             (Inl e, wd) \<Rightarrow> Raised e (s1\<lparr>detector := wd\<rparr>)
           | (Inr g, wd) \<Rightarrow>
               run_loop L evs
                 (emit (if g \<noteq> None then Log INFO ''Game window detected''
                        else Log WARNING ''Game window not detected, using full screen'')
                    (s1\<lparr>detector := wd, game_region := g\<rparr>)) 0))"

section \<open>Vocabulary of the properties\<close>

text \<open>The state an outcome carries.\<close>

definition outcome_state :: "'t outcome \<Rightarrow> 't automation" where
  "outcome_state out = (case out of Raised e s \<Rightarrow> s | In_loop s c \<Rightarrow> s | Returned s \<Rightarrow> s)"

text \<open>
  The loop logs each classification as \<^verbatim>\<open>Current screen: name\<close>; \<open>classified\<close> reads the
  classified names back from a trace, in order. \<open>sleeps\<close> reads the sleeps.
\<close>

fun current_screen_of :: "effect \<Rightarrow> string option" where
  "current_screen_of (Log INFO msg) =
     (if prefix ''Current screen: '' msg then Some (drop 16 msg) else None)"
| "current_screen_of e = None"

definition classified :: "effect list \<Rightarrow> string list" where
  "classified tr = List.map_filter current_screen_of tr"

fun sleep_of :: "effect \<Rightarrow> real option" where
  "sleep_of (Sleep d) = Some d"
| "sleep_of e = None"

definition sleeps :: "effect list \<Rightarrow> real list" where
  "sleeps tr = List.map_filter sleep_of tr"

text \<open>The names \<^verbatim>\<open>detect_screen\<close> can return, and the entry logs of the three handlers
  of result screens.\<close>

definition screen_names :: "string set" where
  "screen_names =
     {''main_menu'', ''training_screen'', ''race_screen'', ''event_screen'', ''unknown''}"

definition result_handler_logs :: "effect set" where
  "result_handler_logs =
     {Log INFO ''Handling race result screen'', Log INFO ''Handling training result screen'',
      Log INFO ''Handling choice screen''}"

text \<open>
  \<open>stable s s'\<close>: from \<open>s\<close> to \<open>s'\<close> the configuration and the templates are the same, the
  three outcome counters are the same, the error counter has not gone down and no handler of a
  result screen was entered. \<open>steady s s'\<close>: moreover the flag is the same and no classification
  was logged.
\<close>

definition stable :: "'t automation \<Rightarrow> 't automation \<Rightarrow> bool" where
  "stable s s' \<longleftrightarrow>
     config s' = config s \<and> templates s' = templates s \<and>
     training_sessions (session_stats s') = training_sessions (session_stats s) \<and>
     races_completed (session_stats s') = races_completed (session_stats s) \<and>
     events_handled (session_stats s') = events_handled (session_stats s) \<and>
     errors_encountered (session_stats s) \<le> errors_encountered (session_stats s') \<and>
     set (trace s') \<inter> result_handler_logs \<subseteq> set (trace s)"

definition steady :: "'t automation \<Rightarrow> 't automation \<Rightarrow> bool" where
  "steady s s' \<longleftrightarrow>
     stable s s' \<and> running s' = running s \<and> classified (trace s') = classified (trace s)"

text \<open>An effect that is neither a classification log nor an entry log of a result handler.\<close>

definition quiet :: "effect \<Rightarrow> bool" where
  "quiet e \<longleftrightarrow> current_screen_of e = None \<and> e \<notin> result_handler_logs"


text \<open>
  What a handler of one of the other screens, or the loop's fallback, does to the counters:
  when it reports that it acted, its last act was a click with the default delay and nothing
  before the click touched the counters; otherwise the counters are as before.
\<close>

definition acts ::
  "bool \<Rightarrow> (py_error + bool) \<Rightarrow> 't automation \<Rightarrow> 't automation \<Rightarrow> bool" where
  "acts ok r s s' \<longleftrightarrow>
     (r = Inr True \<and>
        (\<exists>x y s2. s' = click_at ok x y 0.5 s2 \<and> session_stats s2 = session_stats s)) \<or>
     (r \<noteq> Inr True \<and> session_stats s' = session_stats s)"




text \<open>
  The classifier as the specification words it: the screen-identifying templates in their
  fixed priority order, a template \<^emph>\<open>matching\<close> a frame when it is in the library and its best
  score is at or above the threshold, and the classification being the first name in the
  order whose template matches, or \<open>unknown\<close> when none does. \<open>template_raises\<close>: the
  template is in the library and OpenCV raises on it for this frame.
\<close>

definition screen_templates :: "string list" where
  "screen_templates = [''main_menu'', ''training_screen'', ''race_screen'', ''event_screen'']"

definition template_matches ::
  "('f, 't) libs \<Rightarrow> (string \<rightharpoonup> 't) \<Rightarrow> 'f \<Rightarrow> real \<Rightarrow> string \<Rightarrow> bool" where
  "template_matches L library frame threshold name =
     (case library name of
        None \<Rightarrow> False
      | Some t \<Rightarrow>
          (case match_template L frame t of
             Inl e \<Rightarrow> False
           | Inr (max_val, loc) \<Rightarrow> max_val \<ge> threshold))"

definition template_raises ::
  "('f, 't) libs \<Rightarrow> (string \<rightharpoonup> 't) \<Rightarrow> 'f \<Rightarrow> string \<Rightarrow> bool" where
  "template_raises L library frame name =
     (case library name of
        None \<Rightarrow> False
      | Some t \<Rightarrow> (case match_template L frame t of Inl e \<Rightarrow> True | Inr v \<Rightarrow> False))"

definition classify_spec :: "('f, 't) libs \<Rightarrow> (string \<rightharpoonup> 't) \<Rightarrow> 'f \<Rightarrow> string" where
  "classify_spec L library frame =
     (case find (template_matches L library frame 0.8) screen_templates of
        None \<Rightarrow> ''unknown''
      | Some name \<Rightarrow> name)"

text \<open>The chain of \<^verbatim>\<open>if self.find_template(...)\<close> in \<^verbatim>\<open>detect_screen\<close>, as a recursion over
  a list of names; \<^verbatim>\<open>detect_screen\<close> is this chain on \<open>screen_templates\<close>.\<close>

fun first_found ::
  "('f, 't) libs \<Rightarrow> string list \<Rightarrow> 'f option \<Rightarrow> 't automation
     \<Rightarrow> (py_error + string) \<times> 't automation"
where
  "first_found L [] screenshot s = (Inr ''unknown'', s)"
| "first_found L (name # names) screenshot s =
     (case find_template L name screenshot 0.8 s of
        (Inl e, s1) \<Rightarrow> (Inl e, s1)
      | (Inr (Some m), s1) \<Rightarrow> (Inr name, s1)
      | (Inr None, s1) \<Rightarrow> first_found L names screenshot s1)"

text \<open>Successive calls of \<^verbatim>\<open>get_game_region\<close>, each with the platform's answer at that
  moment; the results in order.\<close>

fun get_game_region_calls ::
  "(py_error + rect option) list \<Rightarrow> window_detector \<Rightarrow> (py_error + region option) list"
where
  "get_game_region_calls [] wd = []"
| "get_game_region_calls (os # oss) wd =
     (case get_game_region os wd of (r, wd') \<Rightarrow> r # get_game_region_calls oss wd')"

subsection \<open>A small world for concrete runs\<close>

text \<open>
  A frame is the list of template names visible in it together with the text on it; a
  template is its name. A visible template scores 1 at \<open>(10, 20)\<close>, any other scores 0;
  every template is 6 wide and 4 high. The library of \<open>example_state\<close> holds
  \<open>main_menu\<close> and \<open>training_button\<close> only.
\<close>

definition example_libs :: "(string list \<times> string, string) libs" where
  "example_libs =
     \<lparr>match_template = (\<lambda>frame t. Inr (if t \<in> set (fst frame) then 1 else 0, 10, 20)),
      shape = (\<lambda>t. (4, 6)),
      image_to_string = (\<lambda>frame region. Inr (snd frame))\<rparr>"

definition example_config :: config_store where
  "example_config =
     \<lparr>window_detection_enabled = Inr True, skip_races = Inr False, screenshot_delay = Inr 1\<rparr>"

definition example_state :: "string automation" where
  "example_state =
     \<lparr>running = True, config = example_config, detector = \<lparr>window_rect = None\<rparr>,
      game_region = None,
      templates = [''main_menu'' \<mapsto> ''main_menu'', ''training_button'' \<mapsto> ''training_button''],
      session_stats = \<lparr>training_sessions = 0, races_completed = 0, events_handled = 0,
                        errors_encountered = 0\<rparr>,
      trace = []\<rparr>"


text \<open>An iteration in which both captures yield \<open>shot\<close> (or raise), the window is not found
  and the click goes through.\<close>

definition example_iteration ::
  "(py_error + string list \<times> string) \<Rightarrow> (string list \<times> string) iteration" where
  "example_iteration shot =
     \<lparr>interrupt = No_interrupt, stop_request = False,
      os1 = Inr None, grab1 = (\<lambda>region. shot),
      os2 = Inr None, grab2 = (\<lambda>region. shot), click_ok = True\<rparr>"

text \<open>The libraries of the small world with a text extraction that always raises.\<close>

definition example_libs_ocr_fails :: "(string list \<times> string, string) libs" where
  "example_libs_ocr_fails = example_libs\<lparr>image_to_string := (\<lambda>frame region. Inl OcrError)\<rparr>"

text \<open>Ten classifications \<open>unknown\<close> in a row, and the number of \<open>unknown\<close> at the end of a
  list of classifications.\<close>

definition ten_unknown :: "string list" where
  "ten_unknown = replicate 10 ''unknown''"

definition trailing_unknown :: "string list \<Rightarrow> nat" where
  "trailing_unknown names = length (takeWhile (\<lambda>n. n = ''unknown'') (rev names))"

text \<open>
  What holds of a run of the loop whose trace had the classifications \<open>pre\<close> at the start and
  has \<open>pre @ names\<close> at the end: while the loop is running, the counter is the number of
  \<open>unknown\<close> at the end of \<open>names\<close> and \<open>names\<close> has no ten \<open>unknown\<close> in a row; when the loop
  has returned, the last ten of \<open>names\<close> are \<open>unknown\<close> and there were no ten in a row before.
\<close>

definition counter_ok :: "string list \<Rightarrow> string list \<Rightarrow> 't outcome \<Rightarrow> bool" where
  "counter_ok pre names out \<longleftrightarrow>
     classified (trace (outcome_state out)) = pre @ names \<and>
     (case out of
        In_loop s' c' \<Rightarrow>
          running s' \<and> c' = int (trailing_unknown names) \<and> \<not> sublist ten_unknown names
      | Returned s' \<Rightarrow>
          \<not> running s' \<and> suffix ten_unknown names \<and> \<not> sublist ten_unknown (butlast names)
      | Raised e s' \<Rightarrow> False)"


text \<open>
  Rounding to a double, as far as the round trip needs it: for a real of magnitude at most
  \<open>2 ^ 1023\<close> the rounded value is off by at most the relative error \<open>2 ^ -53\<close> plus the
  absolute error \<open>2 ^ -1075\<close> of the subnormal range. Rounding to nearest satisfies this, and
  so does the function that does not round at all.
\<close>

definition double_rounding :: "(real \<Rightarrow> real) \<Rightarrow> bool" where
  "double_rounding fl \<longleftrightarrow>
     (\<forall>r. \<bar>r\<bar> \<le> 2 ^ 1023 \<longrightarrow> \<bar>fl r - r\<bar> \<le> \<bar>r\<bar> / 2 ^ 53 + 1 / 2 ^ 1075)"

text \<open>A rectangle of positive size whose coordinates are 32-bit screen coordinates, and a point
  inside it.\<close>

definition screen_rect :: "rect \<Rightarrow> bool" where
  "screen_rect r \<longleftrightarrow>
     (case r of (x, y, width, height) \<Rightarrow>
        0 < width \<and> 0 < height \<and> \<bar>x\<bar> \<le> 2 ^ 31 \<and> \<bar>y\<bar> \<le> 2 ^ 31 \<and>
        width \<le> 2 ^ 31 \<and> height \<le> 2 ^ 31)"

definition inside :: "rect \<Rightarrow> int \<times> int \<Rightarrow> bool" where
  "inside r p \<longleftrightarrow>
     (case r of (x, y, width, height) \<Rightarrow>
        x \<le> fst p \<and> fst p \<le> x + width \<and> y \<le> snd p \<and> snd p \<le> y + height)"

text \<open>
  Rounding to nearest on the values met when the point \<open>(2 ^ 69 + 2 ^ 10, 0)\<close> goes through the
  rectangle \<open>(0, 0, 2 ^ 70, 1)\<close>: all of them are doubles (\<open>0\<close>, \<open>1\<close>, \<open>1 / 2\<close>, \<open>2 ^ 69\<close>,
  \<open>2 ^ 70\<close>) except the quotient \<open>1 / 2 + 1 / 2 ^ 60\<close>, whose nearest double is \<open>1 / 2\<close>.
\<close>

definition nearest_sample :: "real \<Rightarrow> real" where
  "nearest_sample r = (if r = 1 / 2 + 1 / 2 ^ 60 then 1 / 2 else r)"

text \<open>A rounding that always rounds towards zero by the full relative error.\<close>

definition shrink :: "real \<Rightarrow> real" where
  "shrink r = r * (1 - 1 / 2 ^ 53)"

section \<open>What each operation leaves alone\<close>

lemma classified_snoc:
  "classified (tr @ [e]) =
     classified tr @ (case current_screen_of e of None \<Rightarrow> [] | Some n \<Rightarrow> [n])"
  by (simp add: classified_def List.map_filter_def split: option.splits)

lemma sleeps_snoc:
  "sleeps (tr @ [e]) = sleeps tr @ (case sleep_of e of None \<Rightarrow> [] | Some d \<Rightarrow> [d])"
  by (simp add: sleeps_def List.map_filter_def split: option.splits)

lemma sleeps_simps:
  "sleeps [] = []"
  "sleeps (e # tr) = (case sleep_of e of None \<Rightarrow> [] | Some d \<Rightarrow> [d]) @ sleeps tr"
  "sleeps (tr @ tr') = sleeps tr @ sleeps tr'"
  by (simp_all add: sleeps_def List.map_filter_def split: option.splits)

lemma classified_simps:
  "classified [] = []"
  "classified (e # tr) =
     (case current_screen_of e of None \<Rightarrow> [] | Some n \<Rightarrow> [n]) @ classified tr"
  "classified (tr @ tr') = classified tr @ classified tr'"
  by (simp_all add: classified_def List.map_filter_def split: option.splits)

lemma steady_refl: "steady s s"
  by (simp add: steady_def stable_def)

lemma steady_trans: "steady s s1 \<Longrightarrow> steady s1 s2 \<Longrightarrow> steady s s2"
  by (auto simp: steady_def stable_def)

lemma steady_emit: "steady s s1 \<Longrightarrow> quiet e \<Longrightarrow> steady s (emit e s1)"
  by (auto simp: steady_def stable_def emit_def quiet_def classified_snoc)

lemma steady_count_error: "steady s s1 \<Longrightarrow> steady s (count_error s1)"
  by (simp add: steady_def stable_def count_error_def)

lemma quiet_simps:
  "quiet (Log DEBUG m)" "quiet (Log WARNING m)" "quiet (Log ERROR m)"
  "quiet (Sleep d)" "quiet (Click x y)" "quiet Focus"
  "quiet (Log INFO ''Clicked'')" "quiet (Log INFO ''Handling main menu'')"
  "quiet (Log INFO ''Handling training screen'')" "quiet (Log INFO ''Handling event screen'')"
  "quiet (Log INFO ''Handling race screen'')"
  by (simp_all add: quiet_def result_handler_logs_def)

lemma steady_detector:
  "steady s s1 \<Longrightarrow> steady s (s1\<lparr>detector := wd\<rparr>)"
  "steady s s1 \<Longrightarrow> steady s (s1\<lparr>detector := wd, game_region := g\<rparr>)"
  by (simp_all add: steady_def stable_def)

lemma steady_capture_screen:
  "capture_screen os grab region s1 = (shot, s2) \<Longrightarrow> steady s s1 \<Longrightarrow> steady s s2"
  by (auto simp: capture_screen_def capture_failed_def quiet_simps
           split: sum.splits if_splits prod.splits
           intro!: steady_emit steady_detector)

lemma steady_find_template:
  "find_template L name shot thr s1 = (r, s2) \<Longrightarrow> steady s s1 \<Longrightarrow> steady s s2"
  by (auto simp: find_template_def quiet_simps
           split: sum.splits if_splits prod.splits option.splits intro: steady_emit)

lemma steady_ocr_text:
  "ocr_text L img region s1 = (r, s2) \<Longrightarrow> steady s s1 \<Longrightarrow> steady s s2"
  by (auto simp: ocr_text_def quiet_simps
           split: sum.splits if_splits prod.splits option.splits intro: steady_emit)

lemma steady_click_failed: "steady s s1 \<Longrightarrow> steady s (click_failed s1)"
  by (simp add: click_failed_def steady_count_error steady_emit quiet_simps)

lemma steady_click_at: "steady s s1 \<Longrightarrow> steady s (click_at ok x y d s1)"
  by (auto simp: click_at_def Let_def quiet_simps split: sum.splits
           intro!: steady_click_failed steady_emit)

lemma steady_click_centre: "steady s s1 \<Longrightarrow> steady s (click_centre ok btn s1)"
  by (auto simp: click_centre_def steady_click_at split: prod.splits)

lemma steady_detect_screen:
  "detect_screen L shot s1 = (r, s2) \<Longrightarrow> steady s s1 \<Longrightarrow> steady s s2"
  unfolding detect_screen_def
  by (auto split: sum.splits prod.splits option.splits dest: steady_find_template)

lemma steady_handle_main_menu:
  "handle_main_menu L os grab ok s1 = (r, s2) \<Longrightarrow> steady s s1 \<Longrightarrow> steady s s2"
  unfolding handle_main_menu_def
  by (auto split: sum.splits prod.splits option.splits
           dest!: steady_capture_screen steady_find_template
           intro!: steady_click_centre steady_emit quiet_simps)

lemma steady_try_training_options:
  "try_training_options L opts shot ok s1 = (r, s2) \<Longrightarrow> steady s s1 \<Longrightarrow> steady s s2"
proof (induction opts arbitrary: s1)
  case Nil
  then show ?case by simp
next
  case (Cons opt opts)
  then show ?case
    by (auto split: sum.splits prod.splits option.splits
             dest: steady_find_template intro: steady_click_centre)
qed

lemma steady_handle_training_screen:
  "handle_training_screen L os grab ok s1 = (r, s2) \<Longrightarrow> steady s s1 \<Longrightarrow> steady s s2"
  unfolding handle_training_screen_def
  by (auto split: prod.splits
           dest!: steady_capture_screen steady_try_training_options
           intro!: steady_emit quiet_simps)

lemma steady_handle_event_screen:
  "handle_event_screen L os grab ok s1 = (r, s2) \<Longrightarrow> steady s s1 \<Longrightarrow> steady s s2"
  unfolding handle_event_screen_def
  by (auto split: sum.splits prod.splits option.splits
           dest!: steady_capture_screen steady_find_template
           intro!: steady_click_centre steady_emit quiet_simps)

lemma steady_race_start:
  "race_start L shot ok s1 = (r, s2) \<Longrightarrow> steady s s1 \<Longrightarrow> steady s s2"
  unfolding race_start_def
  by (auto split: sum.splits prod.splits option.splits
           dest!: steady_find_template intro!: steady_click_centre)

lemma steady_handle_race_screen:
  "handle_race_screen L os grab ok s1 = (r, s2) \<Longrightarrow> steady s s1 \<Longrightarrow> steady s s2"
  unfolding handle_race_screen_def
  by (auto split: sum.splits prod.splits option.splits bool.splits
           dest!: steady_capture_screen steady_find_template steady_race_start
           intro!: steady_click_centre steady_emit quiet_simps)

lemma steady_fallback_continue:
  "fallback_continue L ev name shot s1 = (r, s2) \<Longrightarrow> steady s s1 \<Longrightarrow> steady s s2"
  unfolding fallback_continue_def
  by (auto split: sum.splits prod.splits option.splits
           dest!: steady_find_template
           intro!: steady_click_centre steady_emit quiet_simps)

lemma steady_check_for_errors:
  "check_for_errors L shot s1 = (r, s2) \<Longrightarrow> steady s s1 \<Longrightarrow> steady s s2"
  unfolding check_for_errors_def
  by (auto split: prod.splits option.splits dest!: steady_ocr_text
           intro!: steady_emit quiet_simps)

lemma steady_pace: "pace h s1 = (r, s2) \<Longrightarrow> steady s s1 \<Longrightarrow> steady s s2"
  unfolding pace_def
  by (auto split: sum.splits if_splits intro!: steady_emit quiet_simps)

lemma detect_screen_names:
  "detect_screen L shot s = (Inr name, s') \<Longrightarrow> name \<in> screen_names"
  unfolding detect_screen_def screen_names_def
  by (auto split: sum.splits prod.splits option.splits)

lemma steady_dispatch:
  "dispatch L ev name shot s1 = (r, s2) \<Longrightarrow> name \<in> screen_names \<Longrightarrow> steady s s1
     \<Longrightarrow> steady s s2"
  unfolding dispatch_def screen_names_def
  by (auto dest: steady_handle_main_menu steady_handle_training_screen
        steady_handle_event_screen steady_handle_race_screen steady_fallback_continue)

section \<open>One pass of the loop\<close>

lemma stable_refl: "stable s s"
  by (simp add: stable_def)

lemma stable_trans: "stable s s1 \<Longrightarrow> stable s1 s2 \<Longrightarrow> stable s s2"
  by (auto simp: stable_def)

lemma steady_stable: "steady s s' \<Longrightarrow> stable s s'"
  by (simp add: steady_def)

lemma stable_emit: "stable s s1 \<Longrightarrow> e \<notin> result_handler_logs \<Longrightarrow> stable s (emit e s1)"
  by (auto simp: stable_def emit_def)

lemma stable_running: "stable s s1 \<Longrightarrow> stable s (s1\<lparr>running := b\<rparr>)"
  by (simp add: stable_def)

lemma stable_finish: "stable s s1 \<Longrightarrow> stable s (finish s1)"
  by (simp add: finish_def stable_emit stable_running result_handler_logs_def)

text \<open>
  A pass through the \<^verbatim>\<open>try\<close> body either classifies nothing and leaves the counter, or logs
  exactly one classification and sets the counter from it.
\<close>

lemma loop_try_cases:
  assumes "loop_try L ev s c = (r, s', c')"
  shows "(steady s s' \<and> c' = c \<and> r \<noteq> Inr Break) \<or>
         (\<exists>name\<in>screen_names.
            stable s s' \<and> running s' = running s \<and>
            classified (trace s') = classified (trace s) @ [name] \<and>
            c' = (if name = ''unknown'' then c + 1 else 0) \<and>
            (r = Inr Break \<longleftrightarrow> name = ''unknown'' \<and> max_unknown_screens \<le> c + 1))"
proof -
  obtain shot sa where cap: "capture_screen (os1 ev) (grab1 ev) None s = (shot, sa)"
    by (cases "capture_screen (os1 ev) (grab1 ev) None s")
  then have sa: "steady s sa" using steady_refl by (rule steady_capture_screen)
  show ?thesis
  proof (cases shot)
    case None
    with assms cap have "r = Inr Continue" "c' = c"
      "s' = emit (Sleep 1) (emit (Log WARNING ''Failed to capture screenshot'') sa)"
      by (simp_all add: loop_try_def)
    with sa show ?thesis
      by (simp add: quiet_simps steady_emit)
  next
    case (Some frame)
    obtain err sb where chk: "check_for_errors L (Some frame) sa = (err, sb)"
      by (cases "check_for_errors L (Some frame) sa")
    then have sb: "steady s sb" using sa by (rule steady_check_for_errors)
    show ?thesis
    proof (cases err)
      case True
      with assms cap Some chk have "r = Inr Continue" "c' = c"
        "s' = emit (Sleep 3) (emit (Log WARNING ''Error detected, waiting before retry'') sb)"
        by (simp_all add: loop_try_def)
      with sb show ?thesis
        by (simp add: quiet_simps steady_emit)
    next
      case False
      obtain d sc where det: "detect_screen L (Some frame) sb = (d, sc)"
        by (cases "detect_screen L (Some frame) sb")
      then have sc: "steady s sc" using sb by (rule steady_detect_screen)
      show ?thesis
      proof (cases d)
        case (Inl e)
        with assms cap Some chk False det have "r = Inl e" "c' = c" "s' = sc"
          by (simp_all add: loop_try_def)
        with sc show ?thesis by simp
      next
        case (Inr name)
        with det have nm: "name \<in> screen_names" by (auto dest: detect_screen_names)
        define sd where "sd = emit (Log INFO (''Current screen: '' @ name)) sc"
        define c1 where "c1 = (if name \<noteq> ''unknown'' then 0 else c + 1)"
        have sd: "stable s sd" "running sd = running s"
          "classified (trace sd) = classified (trace s) @ [name]"
          using sc by (auto simp: sd_def steady_def stable_def emit_def classified_snoc
                                  result_handler_logs_def)
        have later: "stable s s2 \<and> running s2 = running s \<and>
                     classified (trace s2) = classified (trace s) @ [name]"
          if "steady sd s2" for s2
          using that sd by (auto simp: steady_def intro: stable_trans)
        have sdd: "steady sd sd" by (rule steady_refl)
        have eq: "loop_try L ev s c =
            (if name = ''unknown'' \<and> max_unknown_screens \<le> c1
             then (Inr Break,
                   emit (Log ERROR ''Too many unknown screens, stopping automation'') sd, c1)
             else (case dispatch L ev name (Some frame) sd of
                     (Inl e, s5) \<Rightarrow> (Inl e, s5, c1)
                   | (Inr handled, s5) \<Rightarrow>
                       (case pace handled s5 of
                          (Inl e, s6) \<Rightarrow> (Inl e, s6, c1)
                        | (Inr u, s6) \<Rightarrow> (Inr Continue, s6, c1))))"
          using cap Some chk False det Inr
          unfolding sd_def c1_def
          by (simp add: loop_try_def Let_def)
        show ?thesis
        proof (cases "name = ''unknown'' \<and> max_unknown_screens \<le> c + 1")
          case True
          then have "c1 = c + 1" by (simp add: c1_def)
          with assms eq True have "r = Inr Break" "c' = c + 1"
            "s' = emit (Log ERROR ''Too many unknown screens, stopping automation'') sd"
            by simp_all
          moreover from this have "steady sd s'"
            using sdd by (simp add: quiet_simps steady_emit)
          ultimately show ?thesis using later nm True by auto
        next
          case nb: False
          then have nb1: "\<not> (name = ''unknown'' \<and> max_unknown_screens \<le> c1)"
            by (auto simp: c1_def)
          obtain h se where dis: "dispatch L ev name (Some frame) sd = (h, se)"
            by (cases "dispatch L ev name (Some frame) sd")
          then have se: "steady sd se" using nm sdd by (rule steady_dispatch)
          have "r \<noteq> Inr Break \<and> c' = c1 \<and> steady sd s'"
          proof (cases h)
            case (Inl e)
            with assms eq nb1 dis have "r = Inl e" "c' = c1" "s' = se"
              by simp_all
            with se show ?thesis by simp
          next
            case (Inr handled)
            obtain p sf where pc: "pace handled se = (p, sf)"
              by (cases "pace handled se")
            then have sf: "steady sd sf" using se by (rule steady_pace)
            from assms eq nb1 dis Inr pc
            have "r \<noteq> Inr Break" "c' = c1" "s' = sf"
              by (auto split: sum.splits)
            with sf show ?thesis by simp
          qed
          with later nm nb show ?thesis by (auto simp: c1_def)
        qed
      qed
    qed
  qed
qed

lemma no_interrupt: "\<not> keyboard_interrupt ev \<Longrightarrow> interrupt ev = No_interrupt"
  by (simp add: keyboard_interrupt_def)

lemma iteration_step_cases_any:
  assumes "iteration_step L ev s c = (ctl, s', c')"
  shows "(steady s s' \<and> c' = c \<and> (ctl = Break \<longleftrightarrow> interrupt ev = In_try)) \<or>
         (interrupt ev \<noteq> In_try \<and>
          (\<exists>name\<in>screen_names.
            stable s s' \<and> running s' = running s \<and>
            classified (trace s') = classified (trace s) @ [name] \<and>
            c' = (if name = ''unknown'' then c + 1 else 0) \<and>
            (ctl = Break \<longleftrightarrow> name = ''unknown'' \<and> max_unknown_screens \<le> c + 1)))"
proof (cases "interrupt ev = In_try")
  case True
  with assms have "ctl = Break" "c' = c" "s' = emit (Log INFO ''Automation stopped by user'') s"
    by (simp_all add: iteration_step_def)
  then show ?thesis
    using True steady_refl[of s]
    by (simp add: steady_emit quiet_def result_handler_logs_def)
next
  case False
  obtain r sa ca where lt: "loop_try L ev s c = (r, sa, ca)"
    by (cases "loop_try L ev s c")
  define sp where "sp = count_error (emit (Log ERROR ''Error in automation loop'') sa)"
  define sb where "sb = emit (Sleep 2) sp"
  have sp: "steady sa sp"
    unfolding sp_def using steady_refl[of sa]
    by (intro steady_emit steady_count_error quiet_simps)
  have sb: "steady sa sb"
    unfolding sb_def using sp
    by (intro steady_emit quiet_simps)
  have res: "(\<exists>e. r = Inl e \<and> ctl \<noteq> Break \<and> steady sa s' \<and> c' = ca) \<or>
             (r = Inr ctl \<and> s' = sa \<and> c' = ca)"
  proof (cases r)
    case (Inl e)
    show ?thesis
    proof (cases "interrupt ev = In_except")
      case True
      with assms False lt Inl have "ctl = Propagate KeyboardInterrupt" "s' = sp" "c' = ca"
        by (simp_all add: iteration_step_def sp_def)
      with Inl sp show ?thesis by simp
    next
      case ne: False
      with assms False lt Inl have "ctl = Continue" "s' = sb" "c' = ca"
        by (simp_all add: iteration_step_def sb_def sp_def)
      with Inl sb show ?thesis by simp
    qed
  next
    case (Inr x)
    with assms False lt show ?thesis by (simp add: iteration_step_def)
  qed
  from loop_try_cases[OF lt] show ?thesis
  proof
    assume a: "steady s sa \<and> ca = c \<and> r \<noteq> Inr Break"
    with res have "steady s s' \<and> c' = c \<and> ctl \<noteq> Break"
      by (auto intro: steady_trans steady_refl)
    with False show ?thesis by simp
  next
    assume "\<exists>name\<in>screen_names.
            stable s sa \<and> running sa = running s \<and>
            classified (trace sa) = classified (trace s) @ [name] \<and>
            ca = (if name = ''unknown'' then c + 1 else 0) \<and>
            (r = Inr Break \<longleftrightarrow> name = ''unknown'' \<and> max_unknown_screens \<le> c + 1)"
    then obtain name where nm: "name \<in> screen_names" and
      a: "stable s sa" "running sa = running s"
         "classified (trace sa) = classified (trace s) @ [name]"
         "ca = (if name = ''unknown'' then c + 1 else 0)"
         "r = Inr Break \<longleftrightarrow> name = ''unknown'' \<and> max_unknown_screens \<le> c + 1"
      by blast
    from res have "stable s s' \<and> running s' = running s \<and>
            classified (trace s') = classified (trace s) @ [name] \<and>
            c' = (if name = ''unknown'' then c + 1 else 0) \<and>
            (ctl = Break \<longleftrightarrow> name = ''unknown'' \<and> max_unknown_screens \<le> c + 1)"
    proof
      assume "\<exists>e. r = Inl e \<and> ctl \<noteq> Break \<and> steady sa s' \<and> c' = ca"
      then obtain e where e: "r = Inl e" "ctl \<noteq> Break" "steady sa s'" "c' = ca" by blast
      with a show ?thesis
        by (auto simp: steady_def intro: stable_trans)
    next
      assume "r = Inr ctl \<and> s' = sa \<and> c' = ca"
      with a show ?thesis by auto
    qed
    with nm False show ?thesis by blast
  qed
qed

lemma iteration_step_propagates:
  assumes "iteration_step L ev s c = (Propagate e, s', c')"
  shows "interrupt ev = In_except \<and> e = KeyboardInterrupt"
proof -
  obtain r sa ca where lt: "loop_try L ev s c = (r, sa, ca)"
    by (cases "loop_try L ev s c")
  have "r \<noteq> Inr (Propagate e)"
    using lt
    by (auto simp: loop_try_def pace_def Let_def
        split: prod.splits option.splits sum.splits if_splits bool.splits)
  with assms lt show ?thesis
    by (cases r) (auto simp: iteration_step_def split: if_splits)
qed

lemma iteration_step_cases:
  assumes "iteration_step L ev s c = (ctl, s', c')" and "interrupt ev \<noteq> In_except"
  shows "(steady s s' \<and> c' = c \<and> (ctl = Break \<longleftrightarrow> keyboard_interrupt ev)) \<or>
         (\<not> keyboard_interrupt ev \<and>
          (\<exists>name\<in>screen_names.
            stable s s' \<and> running s' = running s \<and>
            classified (trace s') = classified (trace s) @ [name] \<and>
            c' = (if name = ''unknown'' then c + 1 else 0) \<and>
            (ctl = Break \<longleftrightarrow> name = ''unknown'' \<and> max_unknown_screens \<le> c + 1)))"
proof -
  have "keyboard_interrupt ev \<longleftrightarrow> interrupt ev = In_try"
    using assms(2) by (cases "interrupt ev") (simp_all add: keyboard_interrupt_def)
  with iteration_step_cases_any[OF assms(1)] show ?thesis by simp
qed

lemma iteration_step_control:
  assumes "iteration_step L ev s c = (ctl, s', c')" and "interrupt ev \<noteq> In_except"
  shows "ctl = Continue \<or> ctl = Break"
  using iteration_step_propagates[of L ev s c _ s' c'] assms by (cases ctl) auto

section \<open>The loop as a whole and the counters\<close>

lemma run_loop_stable: "stable s (outcome_state (run_loop L evs s c))"
proof (induction evs arbitrary: s c)
  case Nil
  show ?case by (simp add: outcome_state_def stable_finish stable_refl)
next
  case (Cons ev evs)
  show ?case
  proof (cases "running s")
    case False
    then show ?thesis by (simp add: outcome_state_def stable_finish stable_refl)
  next
    case True
    obtain ctl s' c' where it: "iteration_step L ev s c = (ctl, s', c')"
      by (cases "iteration_step L ev s c")
    from iteration_step_cases_any[OF it] have st: "stable s s'"
      by (auto dest: steady_stable)
    show ?thesis
    proof (cases ctl)
      case Break
      with True it st show ?thesis by (simp add: outcome_state_def stable_finish)
    next
      case (Propagate e)
      with True it st show ?thesis by (simp add: outcome_state_def)
    next
      case Continue
      define s'' where "s'' = (if stop_request ev then s'\<lparr>running := False\<rparr> else s')"
      have "stable s s''" using st by (simp add: s''_def stable_running)
      moreover have "stable s'' (outcome_state (run_loop L evs s'' c'))" by (rule Cons.IH)
      ultimately have "stable s (outcome_state (run_loop L evs s'' c'))" by (rule stable_trans)
      with True it Continue show ?thesis by (simp add: s''_def)
    qed
  qed
qed

lemma run_automation_stable: "stable s (outcome_state (run_automation L os evs s))"
proof -
  define s1 where "s1 = (emit (Log INFO ''Starting Uma Musume automation'') s)\<lparr>running := True\<rparr>"
  have s1: "stable s s1"
    by (simp add: s1_def stable_running stable_emit stable_refl result_handler_logs_def)
  have loop: "stable s (outcome_state (run_loop L evs s2 0))" if "stable s s2" for s2
    using that run_loop_stable by (rule stable_trans)
  show ?thesis
  proof (cases "window_detection_enabled (config s1)")
    case (Inl e)
    then show ?thesis
      using s1 by (simp add: run_automation_def Let_def s1_def[symmetric] outcome_state_def)
  next
    case (Inr enabled)
    show ?thesis
    proof (cases enabled)
      case False
      with Inr show ?thesis
        using loop[OF s1] by (simp add: run_automation_def Let_def s1_def[symmetric])
    next
      case True
      obtain r wd where g: "get_game_region os (detector s1) = (r, wd)"
        by (cases "get_game_region os (detector s1)")
      show ?thesis
      proof (cases r)
        case (Inl e)
        have "stable s (s1\<lparr>detector := wd\<rparr>)" using s1 by (simp add: stable_def)
        with Inr True g Inl show ?thesis
          by (simp add: run_automation_def Let_def s1_def[symmetric] outcome_state_def)
      next
        case (Inr gr)
        define e where "e = (if gr \<noteq> None then Log INFO ''Game window detected''
                        else Log WARNING ''Game window not detected, using full screen'')"
        have "stable s (emit e (s1\<lparr>detector := wd, game_region := gr\<rparr>))"
          using s1 by (auto simp: stable_def emit_def e_def result_handler_logs_def)
        from loop[OF this] \<open>window_detection_enabled (config s1) = Inr enabled\<close> True g Inr
        show ?thesis
          by (simp add: run_automation_def Let_def s1_def[symmetric] e_def)
      qed
    qed
  qed
qed

lemma session_stats_capture_screen:
  "capture_screen os grab region s = (shot, s') \<Longrightarrow> session_stats s = st
     \<Longrightarrow> session_stats s' = st"
  by (auto simp: capture_screen_def capture_failed_def emit_def
           split: sum.splits if_splits prod.splits)

lemma session_stats_find_template:
  "find_template L name shot thr s = (r, s') \<Longrightarrow> session_stats s = st
     \<Longrightarrow> session_stats s' = st"
  by (auto simp: find_template_def emit_def
           split: sum.splits if_splits prod.splits option.splits)

lemma session_stats_ocr_text:
  "ocr_text L img region s = (r, s') \<Longrightarrow> session_stats s = st \<Longrightarrow> session_stats s' = st"
  by (auto simp: ocr_text_def emit_def split: sum.splits option.splits)

lemma session_stats_detect_screen:
  "detect_screen L shot s = (r, s') \<Longrightarrow> session_stats s = st \<Longrightarrow> session_stats s' = st"
  unfolding detect_screen_def
  by (auto split: sum.splits prod.splits option.splits dest: session_stats_find_template)

lemma session_stats_check_for_errors:
  "check_for_errors L shot s = (r, s') \<Longrightarrow> session_stats s = st
     \<Longrightarrow> session_stats s' = st"
  unfolding check_for_errors_def
  by (auto simp: emit_def split: prod.splits option.splits dest: session_stats_ocr_text)









section \<open>Capture failures and the error scan\<close>

lemma capture_screen_grab_raises_fun:
  "(\<And>region. grab region = Inl (err region))
     \<Longrightarrow> fst (capture_screen os grab region0 s) = None"
  by (simp add: capture_screen_def capture_failed_def split: sum.splits prod.splits)

lemma capture_screen_grab_raises:
  assumes "\<forall>region. \<exists>e. grab region = Inl e"
  shows "fst (capture_screen os grab region0 s) = None"
proof -
  from assms obtain err where "\<forall>region. grab region = Inl (err region)"
    by metis
  then show ?thesis by (simp add: capture_screen_grab_raises_fun)
qed

lemma sleeps_emit_log: "sleeps (trace (emit (Log lv m) s)) = sleeps (trace s)"
  by (simp add: emit_def sleeps_snoc)

lemma sleeps_capture_screen:
  "capture_screen os grab region s = (shot, s') \<Longrightarrow> sleeps (trace s') = sleeps (trace s)"
  by (auto simp: capture_screen_def capture_failed_def sleeps_emit_log
           split: sum.splits prod.splits if_splits)

lemma running_capture_screen:
  "capture_screen os grab region s = (shot, s') \<Longrightarrow> running s' = running s"
  by (drule steady_capture_screen[OF _ steady_refl]) (simp add: steady_def)

lemma iteration_step_capture_failed:
  assumes "\<not> keyboard_interrupt ev" and "fst (capture_screen (os1 ev) (grab1 ev) None s) = None"
  shows "iteration_step L ev s c =
           (Continue,
            emit (Sleep 1) (emit (Log WARNING ''Failed to capture screenshot'')
              (snd (capture_screen (os1 ev) (grab1 ev) None s))), c)"
proof -
  obtain shot sa where cap: "capture_screen (os1 ev) (grab1 ev) None s = (shot, sa)"
    by (cases "capture_screen (os1 ev) (grab1 ev) None s")
  with assms(2) have "shot = None" by simp
  with cap no_interrupt[OF assms(1)] show ?thesis
    by (simp add: iteration_step_def loop_try_def)
qed

lemma first_indicator_Some:
  "first_indicator inds text = Some hit \<Longrightarrow> hit \<in> set inds \<and> sublist hit text"
  by (induction inds) (auto split: if_splits)

lemma first_indicator_None:
  "first_indicator inds text = None \<longleftrightarrow> (\<forall>i\<in>set inds. \<not> sublist i text)"
  by (induction inds) auto

section \<open>The counter of consecutive unknown screens\<close>

lemma trailing_unknown_snoc:
  "trailing_unknown (names @ [n]) = (if n = ''unknown'' then Suc (trailing_unknown names) else 0)"
  by (simp add: trailing_unknown_def)

lemma trailing_unknown_Nil: "trailing_unknown [] = 0"
  by (simp add: trailing_unknown_def)

lemma suffix_replicate_trailing:
  "suffix (replicate k ''unknown'') names \<longleftrightarrow> k \<le> trailing_unknown names"
proof (induction names arbitrary: k rule: rev_induct)
  case Nil
  then show ?case by (simp add: trailing_unknown_def)
next
  case (snoc n names)
  show ?case
  proof (cases k)
    case 0
    then show ?thesis by simp
  next
    case (Suc j)
    have "replicate (Suc j) ''unknown'' = replicate j ''unknown'' @ [''unknown'']"
      by (simp add: replicate_append_same)
    then have "suffix (replicate (Suc j) ''unknown'') (names @ [n]) \<longleftrightarrow>
               n = ''unknown'' \<and> suffix (replicate j ''unknown'') names"
      by (simp only: snoc_suffix_snoc) auto
    with snoc.IH[of j] Suc show ?thesis
      by (auto simp: trailing_unknown_snoc)
  qed
qed

lemma not_ten_snoc:
  assumes "\<not> sublist ten_unknown names"
  shows "sublist ten_unknown (names @ [n]) \<longleftrightarrow> n = ''unknown'' \<and> 9 \<le> trailing_unknown names"
proof -
  have "sublist ten_unknown (names @ [n]) \<longleftrightarrow> suffix ten_unknown (names @ [n])"
    using assms by (simp add: sublist_snoc del: suffix_snoc)
  also have "\<dots> \<longleftrightarrow> 10 \<le> trailing_unknown (names @ [n])"
    unfolding ten_unknown_def by (rule suffix_replicate_trailing)
  also have "\<dots> \<longleftrightarrow> n = ''unknown'' \<and> 9 \<le> trailing_unknown names"
    by (auto simp: trailing_unknown_snoc)
  finally show ?thesis .
qed

lemma finish_simps:
  "classified (trace (finish s)) = classified (trace s)" "\<not> running (finish s)"
  by (simp_all add: finish_def emit_def classified_simps)

lemma run_loop_counter:
  assumes "running s"
    and "\<forall>ev\<in>set evs. \<not> keyboard_interrupt ev \<and> \<not> stop_request ev"
    and "classified (trace s) = pre @ names"
    and "c = int (trailing_unknown names)"
    and "\<not> sublist ten_unknown names"
  shows "\<exists>names'. counter_ok pre names' (run_loop L evs s c)"
  using assms
proof (induction evs arbitrary: s c names)
  case Nil
  then have "counter_ok pre names (run_loop L [] s c)"
    by (simp add: counter_ok_def outcome_state_def)
  then show ?case ..
next
  case (Cons ev evs)
  from Cons.prems have ev: "\<not> keyboard_interrupt ev" "\<not> stop_request ev"
    and rest: "\<forall>ev\<in>set evs. \<not> keyboard_interrupt ev \<and> \<not> stop_request ev"
    by simp_all
  obtain ctl s' c' where it: "iteration_step L ev s c = (ctl, s', c')"
    by (cases "iteration_step L ev s c")
  from no_interrupt[OF ev(1)] have ne: "interrupt ev \<noteq> In_except" by simp
  note ctl = iteration_step_control[OF it ne]
  from iteration_step_cases[OF it ne] ev(1) ctl
  consider (quiet) "steady s s'" "c' = c" "ctl = Continue"
    | (named) name where "running s' = running s"
        "classified (trace s') = classified (trace s) @ [name]"
        "c' = (if name = ''unknown'' then c + 1 else 0)"
        "ctl = Break \<longleftrightarrow> name = ''unknown'' \<and> max_unknown_screens \<le> c + 1"
    by (cases ctl) auto
  then show ?case
  proof cases
    case quiet
    then have "running s'" "classified (trace s') = pre @ names"
      using Cons.prems by (simp_all add: steady_def)
    from Cons.IH[OF this(1) rest this(2) Cons.prems(4) Cons.prems(5)]
    obtain names' where "counter_ok pre names' (run_loop L evs s' c)" ..
    with it quiet Cons.prems(1) ev(2) have "counter_ok pre names' (run_loop L (ev # evs) s c)"
      by simp
    then show ?thesis ..
  next
    case named
    have tr: "classified (trace s') = pre @ (names @ [name])"
      using named(2) Cons.prems(3) by simp
    have c': "c' = int (trailing_unknown (names @ [name]))"
      using named(3) Cons.prems(4) by (simp add: trailing_unknown_snoc)
    have brk: "ctl = Break \<longleftrightarrow> sublist ten_unknown (names @ [name])"
      using named(4) Cons.prems(4) not_ten_snoc[OF Cons.prems(5), of name]
      by (auto simp: max_unknown_screens_def)
    show ?thesis
    proof (cases ctl)
      case Break
      with brk have "sublist ten_unknown (names @ [name])" by simp
      with Cons.prems(5) have "suffix ten_unknown (names @ [name])"
        by (simp add: sublist_snoc del: suffix_snoc)
      with it Break Cons.prems(1) tr Cons.prems(5)
      have "counter_ok pre (names @ [name]) (run_loop L (ev # evs) s c)"
        by (simp add: counter_ok_def outcome_state_def finish_simps del: suffix_snoc)
      then show ?thesis ..
    next
      case (Propagate e)
      with ctl show ?thesis by simp
    next
      case Continue
      with brk have nt: "\<not> sublist ten_unknown (names @ [name])" by simp
      have "running s'" using named(1) Cons.prems(1) by simp
      from Cons.IH[OF this rest tr c' nt]
      obtain names' where "counter_ok pre names' (run_loop L evs s' c')" ..
      with it Continue Cons.prems(1) ev(2) have "counter_ok pre names' (run_loop L (ev # evs) s c)"
        by simp
      then show ?thesis ..
    qed
  qed
qed

lemma iteration_step_classified:
  assumes ki: "\<not> keyboard_interrupt ev"
    and cap: "capture_screen (os1 ev) (grab1 ev) None s = (Some frame, s1)"
    and chk: "check_for_errors L (Some frame) s1 = (False, s2)"
    and det: "detect_screen L (Some frame) s2 = (Inr name, s3)"
  shows "case iteration_step L ev s c of
           (ctl, s', c') \<Rightarrow>
             running s' = running s \<and>
             c' = (if name = ''unknown'' then c + 1 else 0) \<and>
             (ctl = Break \<longleftrightarrow> name = ''unknown'' \<and> 10 \<le> c + 1)"
proof -
  obtain ctl s' c' where it: "iteration_step L ev s c = (ctl, s', c')"
    by (cases "iteration_step L ev s c")
  obtain r sa ca where lt: "loop_try L ev s c = (r, sa, ca)"
    by (cases "loop_try L ev s c")
  define sd where "sd = emit (Log INFO (''Current screen: '' @ name)) s3"
  define c1 where "c1 = (if name \<noteq> ''unknown'' then 0 else c + 1)"
  have eq: "loop_try L ev s c =
            (if name = ''unknown'' \<and> max_unknown_screens \<le> c1
             then (Inr Break,
                   emit (Log ERROR ''Too many unknown screens, stopping automation'') sd, c1)
             else (case dispatch L ev name (Some frame) sd of
                     (Inl e, s5) \<Rightarrow> (Inl e, s5, c1)
                   | (Inr handled, s5) \<Rightarrow>
                       (case pace handled s5 of
                          (Inl e, s6) \<Rightarrow> (Inl e, s6, c1)
                        | (Inr u, s6) \<Rightarrow> (Inr Continue, s6, c1))))"
    using cap chk det
    unfolding sd_def c1_def
    by (simp add: loop_try_def Let_def)
  have ca: "ca = c1" and brk: "r = Inr Break \<longleftrightarrow> name = ''unknown'' \<and> max_unknown_screens \<le> c1"
    using lt eq by (auto split: if_splits prod.splits sum.splits)
  have res: "c' = ca" "ctl = Break \<longleftrightarrow> r = Inr Break"
    using it lt no_interrupt[OF ki] by (auto simp: iteration_step_def split: sum.splits)
  from iteration_step_cases_any[OF it] have "running s' = running s"
    by (auto simp: steady_def)
  with res ca brk show ?thesis
    unfolding it by (auto simp: c1_def max_unknown_screens_def)
qed

section \<open>Clicks\<close>

lemma click_centre_click_at:
  "click_centre ok btn s = click_at ok (fst (centre btn)) (snd (centre btn)) 0.5 s"
  by (simp add: click_centre_def split: prod.splits)

lemma acts_click:
  "session_stats s2 = session_stats s \<Longrightarrow> acts ok (Inr True) s (click_centre ok btn s2)"
  unfolding acts_def click_centre_click_at by blast

lemma acts_none:
  "session_stats s2 = session_stats s \<Longrightarrow> r \<noteq> Inr True \<Longrightarrow> acts ok r s s2"
  by (simp add: acts_def)

lemma session_stats_emit: "session_stats (emit e s) = session_stats s"
  by (simp add: emit_def)

lemma acts_found:
  assumes "find_template L name shot thr s1 = (f, s2)" and "session_stats s1 = session_stats s"
  shows "acts ok (case f of Inl e \<Rightarrow> Inl e | Inr None \<Rightarrow> Inr False | Inr (Some btn) \<Rightarrow> Inr True) s
           (case f of Inl e \<Rightarrow> s2 | Inr None \<Rightarrow> s2 | Inr (Some btn) \<Rightarrow> click_centre ok btn s2)"
  using session_stats_find_template[OF assms]
  by (auto split: sum.splits option.splits intro: acts_click acts_none)

lemma acts_handle_main_menu:
  assumes "handle_main_menu L os grab ok s = (r, s')"
  shows "acts ok r s s'"
proof -
  obtain shot s1 where cap:
    "capture_screen os grab None (emit (Log INFO ''Handling main menu'') s) = (shot, s1)"
    by (cases "capture_screen os grab None (emit (Log INFO ''Handling main menu'') s)")
  then have s1: "session_stats s1 = session_stats s"
    by (rule session_stats_capture_screen) (simp add: emit_def)
  obtain f s2 where ft: "find_template L ''training_button'' shot 0.8 s1 = (f, s2)"
    by (cases "find_template L ''training_button'' shot 0.8 s1")
  from acts_found[OF ft s1, of ok] assms cap ft show ?thesis
    by (auto simp: handle_main_menu_def split: sum.splits option.splits)
qed

lemma acts_handle_event_screen:
  assumes "handle_event_screen L os grab ok s = (r, s')"
  shows "acts ok r s s'"
proof -
  obtain shot s1 where cap:
    "capture_screen os grab None (emit (Log INFO ''Handling event screen'') s) = (shot, s1)"
    by (cases "capture_screen os grab None (emit (Log INFO ''Handling event screen'') s)")
  then have s1: "session_stats s1 = session_stats s"
    by (rule session_stats_capture_screen) (simp add: emit_def)
  obtain f s2 where ft: "find_template L ''confirm_button'' shot 0.8 s1 = (f, s2)"
    by (cases "find_template L ''confirm_button'' shot 0.8 s1")
  from acts_found[OF ft s1, of ok] assms cap ft show ?thesis
    by (auto simp: handle_event_screen_def split: sum.splits option.splits)
qed

lemma acts_try_training_options:
  "try_training_options L opts shot ok s1 = (r, s') \<Longrightarrow> session_stats s1 = session_stats s
     \<Longrightarrow> acts ok r s s'"
proof (induction opts arbitrary: s1)
  case Nil
  then show ?case by (auto simp: acts_def)
next
  case (Cons opt opts)
  obtain f s2 where ft: "find_template L opt shot 0.8 s1 = (f, s2)"
    by (cases "find_template L opt shot 0.8 s1")
  note s2 = session_stats_find_template[OF ft Cons.prems(2)]
  show ?case
  proof (cases "f = Inr None")
    case True
    with Cons.prems(1) ft have "try_training_options L opts shot ok s2 = (r, s')" by simp
    then show ?thesis using s2 by (rule Cons.IH)
  next
    case False
    with acts_found[OF ft Cons.prems(2), of ok] Cons.prems(1) ft show ?thesis
      by (auto split: sum.splits option.splits)
  qed
qed

lemma acts_handle_training_screen:
  assumes "handle_training_screen L os grab ok s = (r, s')"
  shows "acts ok r s s'"
proof -
  obtain shot s1 where cap:
    "capture_screen os grab None (emit (Log INFO ''Handling training screen'') s) = (shot, s1)"
    by (cases "capture_screen os grab None (emit (Log INFO ''Handling training screen'') s)")
  then have s1: "session_stats s1 = session_stats s"
    by (rule session_stats_capture_screen) (simp add: emit_def)
  from assms cap have "try_training_options L training_options shot ok s1 = (r, s')"
    by (simp add: handle_training_screen_def)
  then show ?thesis using s1 by (rule acts_try_training_options)
qed

lemma acts_race_start:
  assumes "race_start L shot ok s1 = (r, s')" and "session_stats s1 = session_stats s"
  shows "acts ok r s s'"
proof -
  obtain f s2 where ft: "find_template L ''race_start_button'' shot 0.8 s1 = (f, s2)"
    by (cases "find_template L ''race_start_button'' shot 0.8 s1")
  from acts_found[OF ft assms(2), of ok] assms(1) ft show ?thesis
    by (auto simp: race_start_def split: sum.splits option.splits)
qed

lemma acts_handle_race_screen:
  assumes "handle_race_screen L os grab ok s = (r, s')"
  shows "acts ok r s s'"
proof -
  obtain shot s1 where cap:
    "capture_screen os grab None (emit (Log INFO ''Handling race screen'') s) = (shot, s1)"
    by (cases "capture_screen os grab None (emit (Log INFO ''Handling race screen'') s)")
  then have s1: "session_stats s1 = session_stats s"
    by (rule session_stats_capture_screen) (simp add: emit_def)
  show ?thesis
  proof (cases "skip_races (config s1)")
    case (Inl e)
    with assms cap s1 show ?thesis
      by (auto simp: handle_race_screen_def intro: acts_none)
  next
    case (Inr skip)
    show ?thesis
    proof (cases skip)
      case False
      with assms cap Inr have "race_start L shot ok s1 = (r, s')"
        by (simp add: handle_race_screen_def)
      then show ?thesis using s1 by (rule acts_race_start)
    next
      case True
      obtain f s2 where ft: "find_template L ''skip_race_button'' shot 0.8 s1 = (f, s2)"
        by (cases "find_template L ''skip_race_button'' shot 0.8 s1")
      note s2 = session_stats_find_template[OF ft s1]
      show ?thesis
      proof (cases "f = Inr None")
        case t: True
        with assms cap Inr True ft have "race_start L shot ok s2 = (r, s')"
          by (simp add: handle_race_screen_def)
        then show ?thesis using s2 by (rule acts_race_start)
      next
        case False
        with acts_found[OF ft s1, of ok] assms cap Inr True ft show ?thesis
          by (auto simp: handle_race_screen_def split: sum.splits option.splits)
      qed
    qed
  qed
qed

lemma acts_fallback_continue:
  assumes "fallback_continue L ev name shot s = (r, s')"
  shows "acts (click_ok ev) r s s'"
proof -
  define s1 where "s1 = emit (Log WARNING (''Unknown screen detected: '' @ name)) s"
  have s1: "session_stats s1 = session_stats s" by (simp add: s1_def emit_def)
  obtain f s2 where ft: "find_template L ''continue_button'' shot 0.8 s1 = (f, s2)"
    by (cases "find_template L ''continue_button'' shot 0.8 s1")
  from acts_found[OF ft s1, of "click_ok ev"] assms ft show ?thesis
    unfolding fallback_continue_def s1_def[symmetric]
    by (auto split: sum.splits option.splits)
qed

lemma acts_dispatch:
  "dispatch L ev name shot s = (r, s') \<Longrightarrow> name \<in> screen_names \<Longrightarrow> acts (click_ok ev) r s s'"
  unfolding dispatch_def screen_names_def
  by (auto dest: acts_handle_main_menu acts_handle_training_screen
        acts_handle_event_screen acts_handle_race_screen acts_fallback_continue)

lemma click_at_fails:
  "session_stats (click_at False x y delay s) =
     (session_stats s)\<lparr>errors_encountered := errors_encountered (session_stats s) + 1\<rparr>"
  "last (trace (click_at False x y delay s)) = Log ERROR ''Failed to click''"
  by (simp_all add: click_at_def click_failed_def count_error_def emit_def Let_def
           split: sum.splits)


section \<open>Rounding and truncation\<close>

lemma py_int_near:
  assumes "\<bar>a - of_int x\<bar> < 1"
  shows "\<bar>py_int a - x\<bar> \<le> 1"
proof -
  from assms have lo: "of_int (x - 1) \<le> a" and hi: "a < of_int x + 1" and hi': "a \<le> of_int (x + 1)"
    and lo': "of_int (x - 1) < a"
    by (simp_all add: abs_less_iff)
  have f: "x - 1 \<le> \<lfloor>a\<rfloor>" "\<lfloor>a\<rfloor> \<le> x"
    using lo hi by (simp_all add: le_floor_iff floor_le_iff)
  have c: "x \<le> \<lceil>a\<rceil>" "\<lceil>a\<rceil> \<le> x + 1"
    using lo' hi' by (simp_all add: le_ceiling_iff ceiling_le_iff)
  from f c show ?thesis
    by (auto simp: py_int_def)
qed

lemma double_rounding_small:
  assumes "double_rounding fl" and "\<bar>r\<bar> \<le> 2 ^ 34"
  shows "\<bar>fl r - r\<bar> \<le> (\<bar>r\<bar> + 1) / 2 ^ 53"
proof -
  have "\<bar>r\<bar> \<le> 2 ^ 1023"
    using assms(2) by (rule order_trans) simp
  with assms(1) have "\<bar>fl r - r\<bar> \<le> \<bar>r\<bar> / 2 ^ 53 + 1 / 2 ^ 1075"
    by (simp add: double_rounding_def)
  moreover have "(1::real) / 2 ^ 1075 \<le> 1 / 2 ^ 53"
    by (intro divide_left_mono) simp_all
  ultimately show ?thesis
    by (simp add: add_divide_distrib)
qed


lemma small_no_overflow: "\<bar>r\<bar> \<le> 2 ^ 34 \<Longrightarrow> \<not> double_overflow r"
proof -
  assume "\<bar>r\<bar> \<le> 2 ^ 34"
  moreover have "(2::real) ^ 34 < 2 ^ 1024 - 2 ^ 970" by simp
  ultimately show ?thesis by (simp add: double_overflow_def)
qed

lemma axis_round_trip:
  assumes dr: "double_rounding fl"
    and w: "0 < w" "w \<le> 2 ^ 31" and wx: "\<bar>wx\<bar> \<le> 2 ^ 31"
    and x: "wx \<le> x" "x \<le> wx + w"
  shows "true_div fl (x - wx) w = Inr (fl (of_int (x - wx) / of_int w)) \<and>
         (\<exists>a. window_to_screen fl wx w (fl (of_int (x - wx) / of_int w)) = Inr a \<and>
              \<bar>a - x\<bar> \<le> 1)"
proof -
  define D :: real where "D = of_int (x - wx)"
  define W :: real where "W = of_int w"
  define X0 :: real where "X0 = of_int wx"
  define r1 where "r1 = D / W"
  define q where "q = fl r1"
  define W' where "W' = fl W"
  define p where "p = q * W'"
  define m where "m = fl p"
  define X' where "X' = fl X0"
  define t where "t = X' + m"
  define a where "a = fl t"
  have W: "1 \<le> W" "W \<le> 2 ^ 31"
    using w by (simp_all add: W_def)
  have D: "0 \<le> D" "D \<le> W"
    using x by (simp_all add: D_def W_def)
  have X0: "\<bar>X0\<bar> \<le> 2 ^ 31"
    using wx unfolding X0_def by (metis of_int_abs of_int_le_iff of_int_numeral of_int_power)
  have r1: "0 \<le> r1" "r1 \<le> 1"
    using W D by (simp_all add: r1_def)
  have q: "\<bar>q - r1\<bar> \<le> 1 / 2 ^ 52"
    using double_rounding_small[OF dr, of r1] r1 by (simp add: q_def; argo)
  have W'e: "\<bar>W' - W\<bar> \<le> 1 / 2 ^ 21"
    using double_rounding_small[OF dr, of W] W by (simp add: W'_def; argo)
  then have W': "\<bar>W'\<bar> \<le> 2 ^ 32"
    using W by (simp; argo)
  have split: "p - D = (q - r1) * W' + r1 * (W' - W)"
    using W by (simp add: p_def r1_def field_simps)
  have "\<bar>(q - r1) * W'\<bar> \<le> (1 / 2 ^ 52) * 2 ^ 32"
    unfolding abs_mult using q W' by (intro mult_mono) simp_all
  moreover have "\<bar>r1 * (W' - W)\<bar> \<le> 1 * (1 / 2 ^ 21)"
    unfolding abs_mult using r1 W'e by (intro mult_mono) simp_all
  ultimately have pD: "\<bar>p - D\<bar> \<le> 1 / 2 ^ 19"
    unfolding split by (simp; argo)
  have p: "\<bar>p\<bar> \<le> 2 ^ 31 + 1"
    using pD D W by (simp; argo)
  have me: "\<bar>m - p\<bar> \<le> 1 / 2 ^ 21"
    using double_rounding_small[OF dr, of p] p by (simp add: m_def; argo)
  have X'e: "\<bar>X' - X0\<bar> \<le> 1 / 2 ^ 21"
    using double_rounding_small[OF dr, of X0] X0 by (simp add: X'_def; argo)
  have xr: "of_int x = X0 + D"
    by (simp add: X0_def D_def)
  have te: "\<bar>t - of_int x\<bar> \<le> 1 / 2 ^ 18"
    using pD me X'e by (simp add: t_def xr; argo)
  have xb: "\<bar>of_int x :: real\<bar> \<le> 2 ^ 32"
    using X0 D W by (simp add: xr; argo)
  have tb: "\<bar>t\<bar> \<le> 2 ^ 32 + 1"
    using te xb by (simp; argo)
  have ae: "\<bar>a - t\<bar> \<le> 1 / 2 ^ 20"
    using double_rounding_small[OF dr, of t] tb by (simp add: a_def; argo)
  have "\<bar>a - of_int x\<bar> < 1"
    using ae te by (simp; argo)
  then have near: "\<bar>py_int a - x\<bar> \<le> 1" by (rule py_int_near)
  have no: "\<not> double_overflow r1" "\<not> double_overflow W" "\<not> double_overflow p"
    "\<not> double_overflow X0" "\<not> double_overflow t"
    using r1 W p X0 tb by (auto intro!: small_no_overflow)
  have q_ok: "true_div fl (x - wx) w = Inr q"
    using w(1) no(1) unfolding q_def r1_def D_def W_def by (simp add: true_div_def)
  have W_ok: "to_float fl w = Inr W'"
    using no(2) unfolding W'_def W_def by (simp add: to_float_def)
  have m_ok: "float_mul_int fl q w = Inr m"
    using no(3) unfolding m_def p_def by (simp add: float_mul_int_def W_ok)
  have X_ok: "to_float fl wx = Inr X'"
    using no(4) unfolding X'_def X0_def by (simp add: to_float_def)
  have a_ok: "int_add_float fl wx m = Inr a"
    using no(5) unfolding a_def t_def by (simp add: int_add_float_def X_ok)
  have "window_to_screen fl wx w q = Inr (py_int a)"
    by (simp add: window_to_screen_def m_ok a_ok)
  with near q_ok show ?thesis
    unfolding q_def r1_def D_def W_def by simp
qed

lemma double_rounding_shrink: "double_rounding shrink"
proof -
  have "\<bar>shrink r - r\<bar> = \<bar>r\<bar> / 2 ^ 53" for r
  proof -
    have "shrink r - r = - (r / 2 ^ 53)" by (simp add: shrink_def algebra_simps)
    then show ?thesis by (simp del: power_numeral)
  qed
  then show ?thesis by (simp add: double_rounding_def del: power_numeral)
qed

lemma py_int_of_int: "py_int (of_int k) = k"
  by (simp add: py_int_def)

section \<open>What leaves the loop, and a pass that reaches the dispatch\<close>

lemma run_loop_raised:
  "run_loop L evs s c = Raised e s'
     \<Longrightarrow> e = KeyboardInterrupt \<and> (\<exists>ev\<in>set evs. interrupt ev = In_except)"
proof (induction evs arbitrary: s c)
  case Nil
  then show ?case by (simp split: if_splits)
next
  case (Cons ev evs)
  obtain ctl s1 c1 where it: "iteration_step L ev s c = (ctl, s1, c1)"
    by (cases "iteration_step L ev s c")
  show ?case
  proof (cases ctl)
    case Continue
    with Cons.prems it have
      "run_loop L evs (if stop_request ev then s1\<lparr>running := False\<rparr> else s1) c1 = Raised e s'"
      by (simp split: if_splits)
    from Cons.IH[OF this] show ?thesis by simp
  next
    case Break
    with Cons.prems it show ?thesis by (simp split: if_splits)
  next
    case (Propagate x)
    with Cons.prems it have "x = e" by (simp split: if_splits)
    with iteration_step_propagates[of L ev s c x s1 c1] it Propagate show ?thesis by simp
  qed
qed

lemma loop_try_dispatch:
  assumes cap: "capture_screen (os1 ev) (grab1 ev) None s = (Some frame, s1)"
    and chk: "check_for_errors L (Some frame) s1 = (False, s2)"
    and det: "detect_screen L (Some frame) s2 = (Inr name, s3)"
    and lim: "\<not> (name = ''unknown'' \<and> 10 \<le> c + 1)"
    and dis: "dispatch L ev name (Some frame)
                (emit (Log INFO (''Current screen: '' @ name)) s3) = (r, s5)"
  shows "loop_try L ev s c =
           (case r of
              Inl e \<Rightarrow> (Inl e, s5, if name = ''unknown'' then c + 1 else 0)
            | Inr handled \<Rightarrow>
                (case pace handled s5 of
                   (Inl e, s6) \<Rightarrow> (Inl e, s6, if name = ''unknown'' then c + 1 else 0)
                 | (Inr u, s6) \<Rightarrow> (Inr Continue, s6, if name = ''unknown'' then c + 1 else 0)))"
proof -
  define sd where "sd = emit (Log INFO (''Current screen: '' @ name)) s3"
  define c1 where "c1 = (if name \<noteq> ''unknown'' then 0 else c + 1)"
  have eq: "loop_try L ev s c =
            (if name = ''unknown'' \<and> max_unknown_screens \<le> c1
             then (Inr Break,
                   emit (Log ERROR ''Too many unknown screens, stopping automation'') sd, c1)
             else (case dispatch L ev name (Some frame) sd of
                     (Inl e, s5) \<Rightarrow> (Inl e, s5, c1)
                   | (Inr handled, s5) \<Rightarrow>
                       (case pace handled s5 of
                          (Inl e, s6) \<Rightarrow> (Inl e, s6, c1)
                        | (Inr u, s6) \<Rightarrow> (Inr Continue, s6, c1))))"
    using cap chk det
    unfolding sd_def c1_def
    by (simp add: loop_try_def Let_def)
  have c1: "c1 = (if name = ''unknown'' then c + 1 else 0)"
    by (simp add: c1_def)
  show ?thesis
    using lim dis unfolding eq sd_def[symmetric] c1[symmetric]
    by (auto simp: c1_def max_unknown_screens_def split: sum.splits)
qed

lemma iteration_step_click_failed:
  assumes ki: "\<not> keyboard_interrupt ev" and nok: "\<not> click_ok ev"
    and cap: "capture_screen (os1 ev) (grab1 ev) None s = (Some frame, s1)"
    and chk: "check_for_errors L (Some frame) s1 = (False, s2)"
    and det: "detect_screen L (Some frame) s2 = (Inr name, s3)"
    and lim: "\<not> (name = ''unknown'' \<and> 10 \<le> c + 1)"
    and dis: "dispatch L ev name (Some frame)
                (emit (Log INFO (''Current screen: '' @ name)) s3) = (Inr True, s5)"
  shows "iteration_step L ev s c =
           (Continue, emit (Sleep 0.5) s5, if name = ''unknown'' then c + 1 else 0)"
    and "session_stats s5 =
           (session_stats s)\<lparr>errors_encountered := errors_encountered (session_stats s) + 1\<rparr>"
    and "last (trace s5) = Log ERROR ''Failed to click''"
proof -
  define sd where "sd = emit (Log INFO (''Current screen: '' @ name)) s3"
  show "iteration_step L ev s c =
           (Continue, emit (Sleep 0.5) s5, if name = ''unknown'' then c + 1 else 0)"
    using loop_try_dispatch[OF cap chk det lim dis] no_interrupt[OF ki]
    by (simp add: iteration_step_def pace_def)
  have st: "session_stats sd = session_stats s"
    unfolding sd_def
    using session_stats_detect_screen[OF det session_stats_check_for_errors[OF chk
            session_stats_capture_screen[OF cap refl]]]
    by (simp add: emit_def)
  from acts_dispatch[OF dis[folded sd_def] detect_screen_names[OF det]] nok
  obtain x y sb where s5: "s5 = click_at False x y 0.5 sb"
    and sb: "session_stats sb = session_stats sd"
    by (auto simp: acts_def)
  show "session_stats s5 =
           (session_stats s)\<lparr>errors_encountered := errors_encountered (session_stats s) + 1\<rparr>"
    unfolding s5 by (simp add: click_at_fails sb st)
  show "last (trace s5) = Log ERROR ''Failed to click''"
    unfolding s5 by (rule click_at_fails)
qed

lemma iteration_step_handler_raised:
  assumes ki: "\<not> keyboard_interrupt ev"
    and cap: "capture_screen (os1 ev) (grab1 ev) None s = (Some frame, s1)"
    and chk: "check_for_errors L (Some frame) s1 = (False, s2)"
    and det: "detect_screen L (Some frame) s2 = (Inr name, s3)"
    and lim: "\<not> (name = ''unknown'' \<and> 10 \<le> c + 1)"
    and dis: "dispatch L ev name (Some frame)
                (emit (Log INFO (''Current screen: '' @ name)) s3) = (Inl e, s5)"
  shows "iteration_step L ev s c =
           (Continue,
            emit (Sleep 2) (count_error (emit (Log ERROR ''Error in automation loop'') s5)),
            if name = ''unknown'' then c + 1 else 0)"
  using loop_try_dispatch[OF cap chk det lim dis] no_interrupt[OF ki]
  by (simp add: iteration_step_def)


section \<open>The properties\<close>

subsection \<open>C4: a template name that is not in the library\<close>

text \<open>
  C4. For every frame (also the \<^verbatim>\<open>None\<close> of a failed capture) and every threshold,
  \<^verbatim>\<open>find_template\<close> with a name that is not a key of the template dictionary returns
  \<^verbatim>\<open>None\<close> as a value, not an exception. The call only logs a warning: the \<open>running\<close> flag and
  the session counters are as before, so the call itself cannot end the loop.
\<close>

theorem find_template_absent:
  "template_name \<notin> dom (templates s) \<Longrightarrow>
     find_template L template_name screenshot threshold s =
       (Inr None, emit (Log WARNING (''Template '' @ template_name @ '' not found'')) s) \<and>
     running (snd (find_template L template_name screenshot threshold s)) = running s \<and>
     session_stats (snd (find_template L template_name screenshot threshold s)) = session_stats s"
  by (auto simp: find_template_def emit_def)

theorem find_template_absent_witness:
  "''continue_button'' \<notin> dom (templates example_state) \<and>
   find_template example_libs ''continue_button'' (Some ([''main_menu''], ''hello'')) 0.8
       example_state =
     (Inr None, emit (Log WARNING ''Template continue_button not found'') example_state)"
  using find_template_absent[of "''continue_button''" example_state example_libs
          "Some ([''main_menu''], ''hello'')" "0.8"]
  by (simp add: example_state_def)

subsection \<open>C10: the cached window rectangle\<close>

text \<open>
  C10. \<^verbatim>\<open>get_game_region\<close> asks the platform for the window rectangle only while the cached
  rectangle is \<^verbatim>\<open>None\<close>. With a cached rectangle \<open>(x, y, width, height)\<close> the call returns
  \<open>(x, y, x + width, y + height)\<close> and leaves the detector as it is, whatever the platform
  would answer (\<open>os\<close> is not read). So once a call has returned a region, every later call
  returns the same region, for any sequence of platform answers. With no cached rectangle the
  result is built from the platform's answer, which is stored.
\<close>

theorem get_game_region_cached:
  "(window_rect wd = Some (x, y, width, height) \<longrightarrow>
      get_game_region os wd = (Inr (Some (x, y, x + width, y + height)), wd)) \<and>
   (get_game_region os wd = (Inr (Some g), wd') \<longrightarrow>
      get_game_region os' wd' = (Inr (Some g), wd') \<and>
      get_game_region_calls oss wd' = replicate (length oss) (Inr (Some g))) \<and>
   (window_rect wd = None \<longrightarrow>
      get_game_region os wd =
        (case os of
           Inl e \<Rightarrow> (Inl e, wd)
         | Inr None \<Rightarrow> (Inr None, wd\<lparr>window_rect := None\<rparr>)
         | Inr (Some (x, y, width, height)) \<Rightarrow>
             (Inr (Some (x, y, x + width, y + height)),
              wd\<lparr>window_rect := Some (x, y, width, height)\<rparr>)))"
proof (intro conjI impI)
  assume "window_rect wd = Some (x, y, width, height)"
  then show "get_game_region os wd = (Inr (Some (x, y, x + width, y + height)), wd)"
    by (simp add: get_game_region_def)
next
  assume a: "get_game_region os wd = (Inr (Some g), wd')"
  then obtain r where r: "window_rect wd' = Some r"
    by (auto simp: get_game_region_def split: if_splits sum.splits option.splits)
  have again: "get_game_region os'' wd' = (Inr (Some g), wd')" for os''
    using a r
    by (auto simp: get_game_region_def split: if_splits sum.splits option.splits)
  then show "get_game_region os' wd' = (Inr (Some g), wd')" .
  show "get_game_region_calls oss wd' = replicate (length oss) (Inr (Some g))"
    by (induction oss) (simp_all add: again)
next
  assume "window_rect wd = None"
  then show "get_game_region os wd =
        (case os of
           Inl e \<Rightarrow> (Inl e, wd)
         | Inr None \<Rightarrow> (Inr None, wd\<lparr>window_rect := None\<rparr>)
         | Inr (Some (x, y, width, height)) \<Rightarrow>
             (Inr (Some (x, y, x + width, y + height)),
              wd\<lparr>window_rect := Some (x, y, width, height)\<rparr>))"
    by (auto simp: get_game_region_def split: sum.splits option.splits)
qed

theorem get_game_region_cached_witness:
  "get_game_region (Inr (Some (5, 7, 100, 50))) \<lparr>window_rect = None\<rparr> =
     (Inr (Some (5, 7, 105, 57)), \<lparr>window_rect = Some (5, 7, 100, 50)\<rparr>) \<and>
   get_game_region (Inr (Some (0, 0, 1, 1))) \<lparr>window_rect = Some (5, 7, 100, 50)\<rparr> =
     (Inr (Some (5, 7, 105, 57)), \<lparr>window_rect = Some (5, 7, 100, 50)\<rparr>) \<and>
   get_game_region_calls [Inr None, Inl OsError, Inr (Some (0, 0, 1, 1))]
       \<lparr>window_rect = Some (5, 7, 100, 50)\<rparr> =
     [Inr (Some (5, 7, 105, 57)), Inr (Some (5, 7, 105, 57)), Inr (Some (5, 7, 105, 57))]"
proof -
  have first: "get_game_region (Inr (Some (5, 7, 100, 50))) \<lparr>window_rect = None\<rparr> =
     (Inr (Some (5, 7, 105, 57)), \<lparr>window_rect = Some (5, 7, 100, 50)\<rparr>)"
    by (simp add: get_game_region_def)
  from get_game_region_cached[of "\<lparr>window_rect = None\<rparr>" 0 0 0 0
         "Inr (Some (5, 7, 100, 50))" "(5, 7, 105, 57)"
         "\<lparr>window_rect = Some (5, 7, 100, 50)\<rparr>" "Inr (Some (0, 0, 1, 1))"
         "[Inr None, Inl OsError, Inr (Some (0, 0, 1, 1))]"] first
  show ?thesis by (simp add: numeral_3_eq_3)
qed

subsection \<open>C2: the priority order of the classifier\<close>

lemma detect_screen_first_found:
  "detect_screen L screenshot s = first_found L screen_templates screenshot s"
  by (simp add: detect_screen_def screen_templates_def
        cong: prod.case_cong sum.case_cong option.case_cong)

lemma find_template_cases:
  assumes "find_template L name (Some frame) threshold s = (r, s')"
  shows "templates s' = templates s"
    and "(\<exists>e. r = Inl e) \<longleftrightarrow> template_raises L (templates s) frame name"
    and "(\<exists>m. r = Inr (Some m)) \<longleftrightarrow> template_matches L (templates s) frame threshold name"
  using assms
  by (auto simp: find_template_def template_raises_def template_matches_def emit_def
           split: option.splits sum.splits prod.splits if_splits)

lemma first_found_spec:
  assumes "first_found L names (Some frame) s = (r, s')"
  shows "(\<forall>name. r = Inr name \<longrightarrow>
            name = (case find (template_matches L (templates s) frame 0.8) names of
                      None \<Rightarrow> ''unknown'' | Some n \<Rightarrow> n)) \<and>
         ((\<forall>n\<in>set names. \<not> template_raises L (templates s) frame n) \<longrightarrow> (\<exists>name. r = Inr name))"
  using assms
proof (induction names arbitrary: s)
  case Nil
  then show ?case by auto
next
  case (Cons n names)
  obtain f s1 where ft: "find_template L n (Some frame) 0.8 s = (f, s1)"
    by (cases "find_template L n (Some frame) 0.8 s")
  note fc = find_template_cases[OF ft]
  show ?case
  proof (cases f)
    case (Inl e)
    with Cons.prems ft fc show ?thesis by auto
  next
    case (Inr found)
    show ?thesis
    proof (cases found)
      case (Some m)
      with fc(3) Inr have "template_matches L (templates s) frame 0.8 n" by blast
      moreover from Cons.prems ft Inr Some have "r = Inr n" by simp
      ultimately show ?thesis by simp
    next
      case None
      with Cons.prems ft Inr have rest: "first_found L names (Some frame) s1 = (r, s')"
        by simp
      from fc None Inr have "\<not> template_matches L (templates s) frame 0.8 n"
        by auto
      with Cons.IH[OF rest] fc(1) show ?thesis by simp
    qed
  qed
qed

text \<open>
  C2. Whenever \<^verbatim>\<open>detect_screen\<close> returns a name for a frame, the name is the first of
  \<open>main_menu\<close>, \<open>training_screen\<close>, \<open>race_screen\<close>, \<open>event_screen\<close>, in this order, whose
  template is in the library and scores at or above the threshold 0.8 on the frame, and it is
  \<open>unknown\<close> when none of the four does. It does return, with exactly this name, for every
  frame on which OpenCV raises for none of the four templates. The name is \<open>unknown\<close> if and
  only if none of the four templates matches.
\<close>

theorem detect_screen_priority:
  "(\<forall>name. fst (detect_screen L (Some frame) s) = Inr name \<longrightarrow>
      name = classify_spec L (templates s) frame) \<and>
   ((\<forall>name\<in>set screen_templates. \<not> template_raises L (templates s) frame name) \<longrightarrow>
      fst (detect_screen L (Some frame) s) = Inr (classify_spec L (templates s) frame)) \<and>
   (classify_spec L (templates s) frame = ''unknown'' \<longleftrightarrow>
      (\<forall>name\<in>set screen_templates. \<not> template_matches L (templates s) frame 0.8 name))"
proof -
  have ff: "first_found L screen_templates (Some frame) s =
              (fst (detect_screen L (Some frame) s), snd (detect_screen L (Some frame) s))"
    by (simp add: detect_screen_first_found)
  note spec = first_found_spec[OF ff, folded classify_spec_def]
  have unknown: "classify_spec L (templates s) frame = ''unknown'' \<longleftrightarrow>
      (\<forall>name\<in>set screen_templates. \<not> template_matches L (templates s) frame 0.8 name)"
  proof (cases "find (template_matches L (templates s) frame 0.8) screen_templates")
    case None
    then have "\<forall>name\<in>set screen_templates. \<not> template_matches L (templates s) frame 0.8 name"
      by (simp add: find_None_iff)
    moreover from None have "classify_spec L (templates s) frame = ''unknown''"
      unfolding classify_spec_def by simp
    ultimately show ?thesis by simp
  next
    case (Some name)
    then have "name \<in> set screen_templates" "template_matches L (templates s) frame 0.8 name"
      by (auto simp: find_Some_iff)
    moreover from this have "name \<noteq> ''unknown''"
      by (auto simp: screen_templates_def)
    ultimately show ?thesis
      using Some by (auto simp: classify_spec_def)
  qed
  from spec unknown show ?thesis by auto
qed

theorem detect_screen_priority_witness:
  "fst (detect_screen example_libs (Some ([''race_screen'', ''training_screen''], ''hello''))
          (example_state\<lparr>templates := [''race_screen'' \<mapsto> ''race_screen'',
                                       ''training_screen'' \<mapsto> ''training_screen'']\<rparr>))
     = Inr ''training_screen''"
proof -
  define lib :: "string \<rightharpoonup> string" where
    "lib = [''race_screen'' \<mapsto> ''race_screen'', ''training_screen'' \<mapsto> ''training_screen'']"
  define frame :: "string list \<times> string" where
    "frame = ([''race_screen'', ''training_screen''], ''hello'')"
  have no_raise: "\<forall>name\<in>set screen_templates. \<not> template_raises example_libs lib frame name"
    by (simp add: screen_templates_def template_raises_def example_libs_def lib_def)
  have cls: "classify_spec example_libs lib frame = ''training_screen''"
    by (simp add: classify_spec_def screen_templates_def template_matches_def example_libs_def
          lib_def frame_def)
  from detect_screen_priority[of example_libs frame "example_state\<lparr>templates := lib\<rparr>"]
       no_raise cls
  show ?thesis
    unfolding lib_def frame_def by simp
qed

subsection \<open>C9: the names the classifier can return\<close>

text \<open>
  C9. Whenever \<^verbatim>\<open>detect_screen\<close> returns, it returns one of the five strings \<open>main_menu\<close>,
  \<open>training_screen\<close>, \<open>race_screen\<close>, \<open>event_screen\<close>, \<open>unknown\<close>, and so never
  \<open>race_result\<close>, \<open>training_result\<close> or \<open>choice_screen\<close>. The loop's branches for these
  three names are therefore dead: over any run of \<^verbatim>\<open>run_automation\<close>, and of the loop from
  any state and counter, none of the three handlers is entered (its entry log never appears)
  and the counters \<open>training_sessions\<close>, \<open>races_completed\<close> and \<open>events_handled\<close> keep the
  values they had at the start.
\<close>

theorem detect_screen_never_result:
  "(\<forall>name. fst (detect_screen L screenshot s) = Inr name \<longrightarrow>
      name \<in> {''main_menu'', ''training_screen'', ''race_screen'', ''event_screen'', ''unknown''} \<and>
      name \<notin> {''race_result'', ''training_result'', ''choice_screen''}) \<and>
   (\<forall>s' \<in> {outcome_state (run_automation L os evs s), outcome_state (run_loop L evs s c)}.
      training_sessions (session_stats s') = training_sessions (session_stats s) \<and>
      races_completed (session_stats s') = races_completed (session_stats s) \<and>
      events_handled (session_stats s') = events_handled (session_stats s) \<and>
      set (trace s') \<inter>
        {Log INFO ''Handling race result screen'', Log INFO ''Handling training result screen'',
         Log INFO ''Handling choice screen''} \<subseteq> set (trace s))"
proof (intro conjI allI impI ballI)
  fix name
  assume "fst (detect_screen L screenshot s) = Inr name"
  then have "detect_screen L screenshot s = (Inr name, snd (detect_screen L screenshot s))"
    by (metis prod.collapse)
  then have "name \<in> screen_names" by (rule detect_screen_names)
  then show
    "name \<in> {''main_menu'', ''training_screen'', ''race_screen'', ''event_screen'', ''unknown''}"
    "name \<notin> {''race_result'', ''training_result'', ''choice_screen''}"
    by (auto simp: screen_names_def)
next
  fix s'
  assume "s' \<in> {outcome_state (run_automation L os evs s), outcome_state (run_loop L evs s c)}"
  then have st: "stable s s'"
    using run_automation_stable[of s L os evs] run_loop_stable[of s L evs c] by auto
  then show "training_sessions (session_stats s') = training_sessions (session_stats s)"
    "races_completed (session_stats s') = races_completed (session_stats s)"
    "events_handled (session_stats s') = events_handled (session_stats s)"
    "set (trace s') \<inter>
        {Log INFO ''Handling race result screen'', Log INFO ''Handling training result screen'',
         Log INFO ''Handling choice screen''} \<subseteq> set (trace s)"
    by (simp_all add: stable_def result_handler_logs_def)
qed

theorem detect_screen_never_result_witness:
  "fst (detect_screen example_libs (Some ([''main_menu''], ''hello'')) example_state)
     = Inr ''main_menu'' \<and>
   ''main_menu'' \<notin> {''race_result'', ''training_result'', ''choice_screen''} \<and>
   races_completed (session_stats (outcome_state
     (run_loop example_libs [example_iteration (Inr ([''main_menu''], ''hello''))]
        example_state 0))) = 0"
proof -
  have ev: "fst (detect_screen example_libs (Some ([''main_menu''], ''hello'')) example_state)
              = Inr ''main_menu''"
    by (simp add: detect_screen_def find_template_def example_libs_def example_state_def)
  have zero: "races_completed (session_stats example_state) = 0"
    by (simp add: example_state_def)
  from detect_screen_never_result[of example_libs "Some ([''main_menu''], ''hello'')"
         example_state "Inr None" "[example_iteration (Inr ([''main_menu''], ''hello''))]" 0]
       ev zero
  show ?thesis by simp
qed

subsection \<open>C5: the session counters\<close>














subsection \<open>C7: a failed capture\<close>

text \<open>
  C7. When the loop's capture yields no frame, the iteration logs a warning, sleeps one
  second and continues: the loop does not stop, no session counter changes (so
  \<open>errors_encountered\<close> is as before) and the counter of consecutive unknown screens is as
  before. Over any number of iterations in a row in which the screen grab raises (three, for
  instance), with no stop request and no interrupt, the loop is still running at the end with
  the same session counters and the same unknown-screen counter, and it has slept exactly one
  second per iteration.
\<close>

theorem capture_failure_retries:
  "(\<not> keyboard_interrupt ev \<and> fst (capture_screen (os1 ev) (grab1 ev) None s) = None \<longrightarrow>
      iteration_step L ev s c =
        (Continue,
         emit (Sleep 1) (emit (Log WARNING ''Failed to capture screenshot'')
           (snd (capture_screen (os1 ev) (grab1 ev) None s))), c) \<and>
      session_stats (snd (capture_screen (os1 ev) (grab1 ev) None s)) = session_stats s \<and>
      running (snd (capture_screen (os1 ev) (grab1 ev) None s)) = running s) \<and>
   (running s \<and>
    (\<forall>ev\<in>set evs. \<not> keyboard_interrupt ev \<and> \<not> stop_request ev \<and>
                   (\<forall>region. \<exists>e. grab1 ev region = Inl e)) \<longrightarrow>
      (\<exists>s'. run_loop L evs s c = In_loop s' c \<and> running s' \<and>
            session_stats s' = session_stats s \<and>
            sleeps (trace s') = sleeps (trace s) @ replicate (length evs) 1))"
proof (intro conjI impI)
  assume a: "\<not> keyboard_interrupt ev \<and> fst (capture_screen (os1 ev) (grab1 ev) None s) = None"
  then show "iteration_step L ev s c =
        (Continue,
         emit (Sleep 1) (emit (Log WARNING ''Failed to capture screenshot'')
           (snd (capture_screen (os1 ev) (grab1 ev) None s))), c)"
    by (simp add: iteration_step_capture_failed)
  show "session_stats (snd (capture_screen (os1 ev) (grab1 ev) None s)) = session_stats s"
    by (rule session_stats_capture_screen[OF prod.collapse[symmetric] refl])
  show "running (snd (capture_screen (os1 ev) (grab1 ev) None s)) = running s"
    by (rule running_capture_screen[OF prod.collapse[symmetric]])
next
  assume "running s \<and>
    (\<forall>ev\<in>set evs. \<not> keyboard_interrupt ev \<and> \<not> stop_request ev \<and>
                   (\<forall>region. \<exists>e. grab1 ev region = Inl e))"
  then show "\<exists>s'. run_loop L evs s c = In_loop s' c \<and> running s' \<and>
            session_stats s' = session_stats s \<and>
            sleeps (trace s') = sleeps (trace s) @ replicate (length evs) 1"
  proof (induction evs arbitrary: s)
    case Nil
    then show ?case by simp
  next
    case (Cons ev evs)
    define sa where "sa = snd (capture_screen (os1 ev) (grab1 ev) None s)"
    define sb where "sb = emit (Sleep 1) (emit (Log WARNING ''Failed to capture screenshot'') sa)"
    from Cons.prems have ev: "\<not> keyboard_interrupt ev" "\<not> stop_request ev"
      and gr: "\<forall>region. \<exists>e. grab1 ev region = Inl e" and run: "running s"
      by simp_all
    from gr have none: "fst (capture_screen (os1 ev) (grab1 ev) None s) = None"
      by (rule capture_screen_grab_raises)
    have step: "iteration_step L ev s c = (Continue, sb, c)"
      unfolding sb_def sa_def using ev(1) none by (rule iteration_step_capture_failed)
    have sa: "running sa" "session_stats sa = session_stats s"
      "sleeps (trace sa) = sleeps (trace s)"
      unfolding sa_def
      using running_capture_screen[OF prod.collapse[symmetric]] run
        session_stats_capture_screen[OF prod.collapse[symmetric] refl]
        sleeps_capture_screen[OF prod.collapse[symmetric]]
      by auto
    have sb: "running sb" "session_stats sb = session_stats s"
      "sleeps (trace sb) = sleeps (trace s) @ [1]"
      using sa by (simp_all add: sb_def emit_def sleeps_simps)
    from Cons.prems sb(1) have "running sb \<and>
      (\<forall>ev\<in>set evs. \<not> keyboard_interrupt ev \<and> \<not> stop_request ev \<and>
                   (\<forall>region. \<exists>e. grab1 ev region = Inl e))"
      by simp
    from Cons.IH[OF this] obtain s' where
      "run_loop L evs sb c = In_loop s' c" "running s'" "session_stats s' = session_stats sb"
      "sleeps (trace s') = sleeps (trace sb) @ replicate (length evs) 1"
      by blast
    with step run ev(2) sb show ?case
      by (simp add: replicate_append_same[symmetric])
  qed
qed

theorem capture_failure_retries_witness:
  "iteration_step example_libs (example_iteration (Inl GrabError)) example_state 0 =
     (Continue,
      example_state\<lparr>trace := [Log ERROR ''Failed to capture screen'',
                               Log WARNING ''Failed to capture screenshot'', Sleep 1]\<rparr>, 0) \<and>
   (case run_loop example_libs
           [example_iteration (Inl GrabError), example_iteration (Inl GrabError),
            example_iteration (Inl GrabError)] example_state 0 of
      In_loop s' c' \<Rightarrow>
        running s' \<and> c' = 0 \<and> errors_encountered (session_stats s') = 0 \<and>
        sleeps (trace s') = [1, 1, 1]
    | Returned s' \<Rightarrow> False
    | Raised e s' \<Rightarrow> False)"
proof -
  define ev where "ev = example_iteration (Inl GrabError)"
  have h1: "\<not> keyboard_interrupt ev" "\<not> stop_request ev"
    "\<forall>region. \<exists>e. grab1 ev region = Inl e"
    by (simp_all add: ev_def example_iteration_def keyboard_interrupt_def)
  have cap: "capture_screen (os1 ev) (grab1 ev) None example_state =
               (None, example_state\<lparr>trace := [Log ERROR ''Failed to capture screen'']\<rparr>)"
    by (simp add: ev_def example_iteration_def capture_screen_def capture_failed_def
          get_game_region_def example_state_def example_config_def emit_def)
  have h2: "running example_state" "errors_encountered (session_stats example_state) = 0"
    "sleeps (trace example_state) = []"
    by (simp_all add: example_state_def sleeps_simps)
  note retry = capture_failure_retries[of ev example_state example_libs 0 "[ev, ev, ev]"]
  have fails: "\<not> keyboard_interrupt ev \<and>
      fst (capture_screen (os1 ev) (grab1 ev) None example_state) = None"
    using h1 cap by simp
  from retry[THEN conjunct1, THEN mp, OF fails, THEN conjunct1] cap
  have one: "iteration_step example_libs ev example_state 0 =
        (Continue,
         emit (Sleep 1) (emit (Log WARNING ''Failed to capture screenshot'')
           (example_state\<lparr>trace := [Log ERROR ''Failed to capture screen'']\<rparr>)), 0)"
    by simp
  have all_fail: "running example_state \<and>
    (\<forall>ev\<in>set [ev, ev, ev]. \<not> keyboard_interrupt ev \<and> \<not> stop_request ev \<and>
                   (\<forall>region. \<exists>e. grab1 ev region = Inl e))"
    using h1 h2 by simp
  from retry[THEN conjunct2, THEN mp, OF all_fail] h2
  have three: "\<exists>s'. run_loop example_libs [ev, ev, ev] example_state 0 = In_loop s' 0 \<and>
            running s' \<and> session_stats s' = session_stats example_state \<and>
            sleeps (trace s') = [1, 1, 1]"
    by (simp add: numeral_3_eq_3 del: run_loop.simps)
  from three obtain s' where
    "run_loop example_libs [ev, ev, ev] example_state 0 = In_loop s' 0" "running s'"
    "session_stats s' = session_stats example_state" "sleeps (trace s') = [1, 1, 1]"
    by blast
  with one h2 show ?thesis
    unfolding ev_def by (simp add: emit_def del: run_loop.simps)
qed

subsection \<open>C8: the error scan\<close>

text \<open>
  C8. After a successful capture the loop extracts the text of the whole frame (no region),
  strips and lower-cases it and looks for the indicators \<open>error\<close>, \<open>failed\<close>,
  \<open>connection lost\<close>, \<open>retry\<close> as substrings: the scan says yes exactly when one of them
  occurs. When one occurs (for the text \<open>Connection Lost\<close>, say), the iteration only logs the
  first indicator found and the warning, sleeps three seconds and continues with the next
  iteration: nothing is classified, no handler runs, nothing is clicked, and the session
  counters and the unknown-screen counter are as before.
\<close>

theorem error_scan_backs_off:
  "''connection lost'' \<in> set error_indicators \<and>
   (fst (check_for_errors L (Some frame) s1) \<longleftrightarrow>
      (\<exists>indicator\<in>set error_indicators.
         sublist indicator (lower (fst (ocr_text L (Some frame) None s1))))) \<and>
   (\<not> keyboard_interrupt ev \<and>
    capture_screen (os1 ev) (grab1 ev) None s = (Some frame, s1) \<and>
    image_to_string L frame None = Inr text \<and>
    indicator \<in> set error_indicators \<and> sublist indicator (lower (strip text)) \<longrightarrow>
      (\<exists>hit\<in>set error_indicators.
         sublist hit (lower (strip text)) \<and>
         iteration_step L ev s c =
           (Continue,
            s1\<lparr>trace := trace s1 @
                  [Log WARNING (''Error detected: '' @ hit),
                   Log WARNING ''Error detected, waiting before retry'', Sleep 3]\<rparr>,
            c)))"
proof (intro conjI impI)
  show "''connection lost'' \<in> set error_indicators"
    by (simp add: error_indicators_def)
next
  obtain scanned sa where oc: "ocr_text L (Some frame) None s1 = (scanned, sa)"
    by (cases "ocr_text L (Some frame) None s1")
  show "fst (check_for_errors L (Some frame) s1) \<longleftrightarrow>
      (\<exists>indicator\<in>set error_indicators.
         sublist indicator (lower (fst (ocr_text L (Some frame) None s1))))"
  proof (cases "first_indicator error_indicators (lower scanned)")
    case None
    then show ?thesis
      using oc by (simp add: check_for_errors_def first_indicator_None[symmetric])
  next
    case (Some hit)
    then have "\<exists>indicator\<in>set error_indicators. sublist indicator (lower scanned)"
      by (auto dest: first_indicator_Some)
    with Some oc show ?thesis
      by (simp add: check_for_errors_def)
  qed
next
  assume a: "\<not> keyboard_interrupt ev \<and>
    capture_screen (os1 ev) (grab1 ev) None s = (Some frame, s1) \<and>
    image_to_string L frame None = Inr text \<and>
    indicator \<in> set error_indicators \<and> sublist indicator (lower (strip text))"
  then have oc: "ocr_text L (Some frame) None s1 = (strip text, s1)"
    by (simp add: ocr_text_def)
  from a have "first_indicator error_indicators (lower (strip text)) \<noteq> None"
    by (auto simp: first_indicator_None)
  then obtain hit where hit: "first_indicator error_indicators (lower (strip text)) = Some hit"
    by blast
  then have chk: "check_for_errors L (Some frame) s1 =
      (True, emit (Log WARNING (''Error detected: '' @ hit)) s1)"
    using oc by (simp add: check_for_errors_def)
  from a have cap: "capture_screen (os1 ev) (grab1 ev) None s = (Some frame, s1)"
    and ki: "\<not> keyboard_interrupt ev" by simp_all
  have "loop_try L ev s c =
      (Inr Continue,
       emit (Sleep 3) (emit (Log WARNING ''Error detected, waiting before retry'')
         (emit (Log WARNING (''Error detected: '' @ hit)) s1)), c)"
    by (simp add: loop_try_def cap chk[simplified])
  with ki have "iteration_step L ev s c =
           (Continue,
            s1\<lparr>trace := trace s1 @
                  [Log WARNING (''Error detected: '' @ hit),
                   Log WARNING ''Error detected, waiting before retry'', Sleep 3]\<rparr>,
            c)"
    by (simp add: iteration_step_def emit_def keyboard_interrupt_def)
  with first_indicator_Some[OF hit] show "\<exists>hit\<in>set error_indicators.
         sublist hit (lower (strip text)) \<and>
         iteration_step L ev s c =
           (Continue,
            s1\<lparr>trace := trace s1 @
                  [Log WARNING (''Error detected: '' @ hit),
                   Log WARNING ''Error detected, waiting before retry'', Sleep 3]\<rparr>,
            c)"
    by blast
qed

theorem error_scan_backs_off_witness:
  "iteration_step example_libs (example_iteration (Inr ([''main_menu''], ''Connection Lost'')))
     example_state 0 =
     (Continue,
      example_state\<lparr>trace := [Log WARNING ''Error detected: connection lost'',
                               Log WARNING ''Error detected, waiting before retry'',
                               Sleep 3]\<rparr>, 0)"
proof -
  define ev where "ev = example_iteration (Inr ([''main_menu''], ''Connection Lost''))"
  have low: "lower (strip ''Connection Lost'') = ''connection lost''"
    by code_simp
  have only: "\<forall>hit\<in>set error_indicators. sublist hit ''connection lost'' \<longrightarrow>
                hit = ''connection lost''"
    by code_simp
  have cap: "capture_screen (os1 ev) (grab1 ev) None example_state =
               (Some ([''main_menu''], ''Connection Lost''), example_state)"
    by (simp add: ev_def example_iteration_def capture_screen_def
          get_game_region_def example_state_def example_config_def)
  have hyp: "\<not> keyboard_interrupt ev \<and>
    capture_screen (os1 ev) (grab1 ev) None example_state =
      (Some ([''main_menu''], ''Connection Lost''), example_state) \<and>
    image_to_string example_libs ([''main_menu''], ''Connection Lost'') None =
      Inr ''Connection Lost'' \<and>
    ''connection lost'' \<in> set error_indicators \<and>
    sublist ''connection lost'' (lower (strip ''Connection Lost''))"
    using cap by (simp add: low ev_def example_iteration_def example_libs_def
                    error_indicators_def keyboard_interrupt_def)
  from error_scan_backs_off[where c=0, THEN conjunct2, THEN conjunct2, THEN mp, OF hyp]
       low only
  have "iteration_step example_libs ev example_state 0 =
     (Continue,
      example_state\<lparr>trace := trace example_state @
         [Log WARNING (''Error detected: '' @ ''connection lost''),
          Log WARNING ''Error detected, waiting before retry'', Sleep 3]\<rparr>, 0)"
    by auto
  then show ?thesis
    by (simp add: ev_def example_state_def)
qed

subsection \<open>C6: capture, click and text-extraction failures\<close>

text \<open>
  C6 as stated does not hold: a failed capture and a failed text extraction do not count in
  \<open>errors_encountered\<close>, and a failed text extraction is not followed by a sleep and a new
  iteration. In the small world, an iteration whose screen grab raises leaves the error
  counter at its value, and so does an iteration whose text extraction raises, which goes on
  to classify the frame as \<open>main_menu\<close>.
\<close>

theorem transient_faults_counterexample:
  "fst (capture_screen (os1 (example_iteration (Inl GrabError)))
          (grab1 (example_iteration (Inl GrabError))) None example_state) = None \<and>
   errors_encountered (session_stats (fst (snd
      (iteration_step example_libs (example_iteration (Inl GrabError)) example_state 0))))
     = errors_encountered (session_stats example_state) \<and>
   fst (ocr_text example_libs_ocr_fails (Some ([''main_menu''], ''hello'')) None example_state)
     = [] \<and>
   errors_encountered (session_stats (fst (snd
      (iteration_step example_libs_ocr_fails
         (example_iteration (Inr ([''main_menu''], ''hello''))) example_state 0))))
     = errors_encountered (session_stats example_state) \<and>
   classified (trace (fst (snd
      (iteration_step example_libs_ocr_fails
         (example_iteration (Inr ([''main_menu''], ''hello''))) example_state 0))))
     = [''main_menu'']"
proof -
  have a: "fst (capture_screen (os1 (example_iteration (Inl GrabError)))
          (grab1 (example_iteration (Inl GrabError))) None example_state) = None"
    by (simp add: example_iteration_def capture_screen_grab_raises)
  have b: "errors_encountered (session_stats (fst (snd
      (iteration_step example_libs (example_iteration (Inl GrabError)) example_state 0))))
     = errors_encountered (session_stats example_state)"
    using iteration_step_capture_failed[OF _ a, of example_libs 0]
      session_stats_capture_screen[OF prod.collapse[symmetric] refl,
        of "os1 (example_iteration (Inl GrabError))" "grab1 (example_iteration (Inl GrabError))"
           None example_state]
    by (simp add: example_iteration_def emit_def keyboard_interrupt_def)
  have c: "fst (ocr_text example_libs_ocr_fails (Some ([''main_menu''], ''hello'')) None
             example_state) = []"
    by (simp add: ocr_text_def example_libs_ocr_fails_def)
  have d: "iteration_step example_libs_ocr_fails
         (example_iteration (Inr ([''main_menu''], ''hello''))) example_state 0 =
       (Continue,
        example_state\<lparr>trace := [Log ERROR ''OCR failed'', Log INFO ''Current screen: main_menu'',
           Log INFO ''Handling main menu'', Sleep 1]\<rparr>, 0)"
    by (simp add: iteration_step_def loop_try_def capture_screen_def get_game_region_def
          check_for_errors_def ocr_text_def detect_screen_def find_template_def dispatch_def
          handle_main_menu_def pace_def example_libs_ocr_fails_def example_libs_def
          example_state_def example_iteration_def example_config_def emit_def lower_def
          error_indicators_def max_unknown_screens_def)
  from a b c show ?thesis
    unfolding d by (simp add: classified_simps example_state_def)
qed

text \<open>
  C6, amended. Each of the three faults is caught and logged where it occurs. Nothing but a
  \<^verbatim>\<open>KeyboardInterrupt\<close> ever leaves the loop, and that only when it arrives while the loop's
  \<^verbatim>\<open>except\<close> clause is running; without one, no exception leaves the loop.

  A click that fails is logged and adds exactly one to \<open>errors_encountered\<close>; the handler (or
  the loop's fallback) still reports that it acted, so the loop sleeps half a second and goes
  on to the next iteration.

  A screen grab that raises makes \<^verbatim>\<open>capture_screen\<close> log the failure and return \<^verbatim>\<open>None\<close> with
  the session counters as before. After a \<^verbatim>\<open>None\<close> from its own capture the loop sleeps one
  second and continues, nothing counted. After a \<^verbatim>\<open>None\<close> from the capture of a handler,
  \<^verbatim>\<open>find_template\<close> raises on the missing screenshot for a template that is loaded, and an
  exception of a handler reaches the loop's \<^verbatim>\<open>except\<close> clause: it is logged, one error is
  counted, the loop sleeps two seconds and continues.

  A text extraction that raises makes \<^verbatim>\<open>ocr_text\<close> log the failure and return the empty
  string, on which the error scan reports nothing: no error is counted, there is no sleep,
  and the iteration goes on to the classification.
\<close>

theorem transient_faults_caught:
  "(\<forall>e s'. run_loop L evs s c = Raised e s' \<longrightarrow>
      e = KeyboardInterrupt \<and> (\<exists>ev\<in>set evs. interrupt ev = In_except)) \<and>
   ((\<forall>ev\<in>set evs. \<not> keyboard_interrupt ev) \<longrightarrow> (\<forall>e s'. run_loop L evs s c \<noteq> Raised e s')) \<and>
   (\<not> keyboard_interrupt ev \<and> \<not> click_ok ev \<and>
    capture_screen (os1 ev) (grab1 ev) None s = (Some frame, s1) \<and>
    check_for_errors L (Some frame) s1 = (False, s2) \<and>
    detect_screen L (Some frame) s2 = (Inr name, s3) \<and>
    \<not> (name = ''unknown'' \<and> 10 \<le> c + 1) \<and>
    dispatch L ev name (Some frame) (emit (Log INFO (''Current screen: '' @ name)) s3)
      = (Inr True, s5) \<longrightarrow>
      iteration_step L ev s c =
        (Continue, emit (Sleep 0.5) s5, if name = ''unknown'' then c + 1 else 0) \<and>
      session_stats s5 =
        (session_stats s)\<lparr>errors_encountered := errors_encountered (session_stats s) + 1\<rparr> \<and>
      last (trace s5) = Log ERROR ''Failed to click'') \<and>
   session_stats (click_at False x y delay s) =
     (session_stats s)\<lparr>errors_encountered := errors_encountered (session_stats s) + 1\<rparr> \<and>
   last (trace (click_at False x y delay s)) = Log ERROR ''Failed to click'' \<and>
   ((\<forall>r. \<exists>e. grab r = Inl e) \<longrightarrow>
      fst (capture_screen os grab region s) = None \<and>
      last (trace (snd (capture_screen os grab region s)))
        = Log ERROR ''Failed to capture screen'' \<and>
      session_stats (snd (capture_screen os grab region s)) = session_stats s) \<and>
   (\<not> keyboard_interrupt ev \<and> fst (capture_screen (os1 ev) (grab1 ev) None s) = None \<longrightarrow>
      iteration_step L ev s c =
        (Continue,
         emit (Sleep 1) (emit (Log WARNING ''Failed to capture screenshot'')
           (snd (capture_screen (os1 ev) (grab1 ev) None s))), c)) \<and>
   (template_name \<in> dom (templates s) \<longrightarrow>
      find_template L template_name None threshold s = (Inl CvError, s)) \<and>
   (\<not> keyboard_interrupt ev \<and>
    capture_screen (os1 ev) (grab1 ev) None s = (Some frame, s1) \<and>
    check_for_errors L (Some frame) s1 = (False, s2) \<and>
    detect_screen L (Some frame) s2 = (Inr name, s3) \<and>
    \<not> (name = ''unknown'' \<and> 10 \<le> c + 1) \<and>
    dispatch L ev name (Some frame) (emit (Log INFO (''Current screen: '' @ name)) s3)
      = (Inl err, s5) \<longrightarrow>
      iteration_step L ev s c =
        (Continue,
         emit (Sleep 2) (count_error (emit (Log ERROR ''Error in automation loop'') s5)),
         if name = ''unknown'' then c + 1 else 0)) \<and>
   ((\<exists>e. image_to_string L frame None = Inl e) \<longrightarrow>
      ocr_text L (Some frame) None s = ([], emit (Log ERROR ''OCR failed'') s) \<and>
      check_for_errors L (Some frame) s = (False, emit (Log ERROR ''OCR failed'') s))"
proof (intro conjI impI allI)
  fix e s'
  assume "run_loop L evs s c = Raised e s'"
  then have r: "e = KeyboardInterrupt \<and> (\<exists>ev\<in>set evs. interrupt ev = In_except)"
    by (rule run_loop_raised)
  from r show "e = KeyboardInterrupt" ..
  from r show "\<exists>ev\<in>set evs. interrupt ev = In_except" ..
next
  fix e s'
  assume "\<forall>ev\<in>set evs. \<not> keyboard_interrupt ev"
  then have "\<forall>ev\<in>set evs. interrupt ev \<noteq> In_except"
    by (auto simp: keyboard_interrupt_def)
  then show "run_loop L evs s c \<noteq> Raised e s'"
    using run_loop_raised[of L evs s c e s'] by blast
next
  assume a: "\<not> keyboard_interrupt ev \<and> \<not> click_ok ev \<and>
    capture_screen (os1 ev) (grab1 ev) None s = (Some frame, s1) \<and>
    check_for_errors L (Some frame) s1 = (False, s2) \<and>
    detect_screen L (Some frame) s2 = (Inr name, s3) \<and>
    \<not> (name = ''unknown'' \<and> 10 \<le> c + 1) \<and>
    dispatch L ev name (Some frame) (emit (Log INFO (''Current screen: '' @ name)) s3)
      = (Inr True, s5)"
  then have h: "\<not> keyboard_interrupt ev" "\<not> click_ok ev"
    "capture_screen (os1 ev) (grab1 ev) None s = (Some frame, s1)"
    "check_for_errors L (Some frame) s1 = (False, s2)"
    "detect_screen L (Some frame) s2 = (Inr name, s3)"
    "\<not> (name = ''unknown'' \<and> 10 \<le> c + 1)"
    "dispatch L ev name (Some frame) (emit (Log INFO (''Current screen: '' @ name)) s3)
      = (Inr True, s5)"
    by simp_all
  show "iteration_step L ev s c =
        (Continue, emit (Sleep 0.5) s5, if name = ''unknown'' then c + 1 else 0)"
    by (rule iteration_step_click_failed(1)[OF h])
  show "session_stats s5 =
        (session_stats s)\<lparr>errors_encountered := errors_encountered (session_stats s) + 1\<rparr>"
    by (rule iteration_step_click_failed(2)[OF h])
  show "last (trace s5) = Log ERROR ''Failed to click''"
    by (rule iteration_step_click_failed(3)[OF h])
next
  show "session_stats (click_at False x y delay s) =
     (session_stats s)\<lparr>errors_encountered := errors_encountered (session_stats s) + 1\<rparr>"
    by (rule click_at_fails)
  show "last (trace (click_at False x y delay s)) = Log ERROR ''Failed to click''"
    by (rule click_at_fails)
next
  assume g: "\<forall>r. \<exists>e. grab r = Inl e"
  then obtain err where err: "\<And>r. grab r = Inl (err r)" by metis
  show "fst (capture_screen os grab region s) = None"
    using g by (rule capture_screen_grab_raises)
  show "last (trace (snd (capture_screen os grab region s)))
        = Log ERROR ''Failed to capture screen''"
    by (simp add: capture_screen_def capture_failed_def err emit_def
             split: sum.splits prod.splits)
  show "session_stats (snd (capture_screen os grab region s)) = session_stats s"
    by (rule session_stats_capture_screen[OF prod.collapse[symmetric] refl])
next
  assume "\<not> keyboard_interrupt ev \<and> fst (capture_screen (os1 ev) (grab1 ev) None s) = None"
  then show "iteration_step L ev s c =
        (Continue,
         emit (Sleep 1) (emit (Log WARNING ''Failed to capture screenshot'')
           (snd (capture_screen (os1 ev) (grab1 ev) None s))), c)"
    by (simp add: iteration_step_capture_failed)
next
  assume "template_name \<in> dom (templates s)"
  then show "find_template L template_name None threshold s = (Inl CvError, s)"
    by (auto simp: find_template_def)
next
  assume a: "\<not> keyboard_interrupt ev \<and>
    capture_screen (os1 ev) (grab1 ev) None s = (Some frame, s1) \<and>
    check_for_errors L (Some frame) s1 = (False, s2) \<and>
    detect_screen L (Some frame) s2 = (Inr name, s3) \<and>
    \<not> (name = ''unknown'' \<and> 10 \<le> c + 1) \<and>
    dispatch L ev name (Some frame) (emit (Log INFO (''Current screen: '' @ name)) s3)
      = (Inl err, s5)"
  then have h: "\<not> keyboard_interrupt ev"
    "capture_screen (os1 ev) (grab1 ev) None s = (Some frame, s1)"
    "check_for_errors L (Some frame) s1 = (False, s2)"
    "detect_screen L (Some frame) s2 = (Inr name, s3)"
    "\<not> (name = ''unknown'' \<and> 10 \<le> c + 1)"
    "dispatch L ev name (Some frame) (emit (Log INFO (''Current screen: '' @ name)) s3)
      = (Inl err, s5)"
    by simp_all
  show "iteration_step L ev s c =
        (Continue,
         emit (Sleep 2) (count_error (emit (Log ERROR ''Error in automation loop'') s5)),
         if name = ''unknown'' then c + 1 else 0)"
    by (rule iteration_step_handler_raised[OF h])
next
  assume "\<exists>e. image_to_string L frame None = Inl e"
  then have oc: "ocr_text L (Some frame) None s = ([], emit (Log ERROR ''OCR failed'') s)"
    by (auto simp: ocr_text_def)
  then show "ocr_text L (Some frame) None s = ([], emit (Log ERROR ''OCR failed'') s)" .
  show "check_for_errors L (Some frame) s = (False, emit (Log ERROR ''OCR failed'') s)"
    by (simp add: check_for_errors_def oc lower_def error_indicators_def)
qed

theorem transient_faults_caught_witness:
  "run_loop example_libs
      [(example_iteration (Inr ([''main_menu'', ''training_button''], [])))\<lparr>click_ok := False\<rparr>]
      example_state 0 \<noteq> Raised KeyboardInterrupt example_state \<and>
   iteration_step example_libs
      ((example_iteration (Inr ([''main_menu'', ''training_button''], [])))\<lparr>click_ok := False\<rparr>)
      example_state 0 =
     (Continue,
      emit (Sleep 0.5)
        (click_at False 13 22 0.5
           (emit (Log INFO ''Handling main menu'')
              (emit (Log INFO ''Current screen: main_menu'') example_state))), 0) \<and>
   errors_encountered (session_stats
      (click_at False 13 22 0.5
         (emit (Log INFO ''Handling main menu'')
            (emit (Log INFO ''Current screen: main_menu'') example_state)))) = 1 \<and>
   fst (capture_screen (Inr None) (grab1 (example_iteration (Inl GrabError))) None
          example_state) = None \<and>
   fst (iteration_step example_libs_ocr_fails (example_iteration (Inl GrabError))
          example_state 0) = Continue \<and>
   find_template example_libs ''training_button'' None 0.8 example_state
     = (Inl CvError, example_state) \<and>
   iteration_step example_libs
      ((example_iteration (Inr ([''main_menu''], [])))\<lparr>grab2 := (\<lambda>region. Inl GrabError)\<rparr>)
      example_state 0 =
     (Continue,
      emit (Sleep 2) (count_error (emit (Log ERROR ''Error in automation loop'')
        (emit (Log ERROR ''Failed to capture screen'')
           (emit (Log INFO ''Handling main menu'')
              (emit (Log INFO ''Current screen: main_menu'') example_state))))), 0) \<and>
   check_for_errors example_libs_ocr_fails (Some ([''main_menu''], ''hello'')) example_state =
     (False, emit (Log ERROR ''OCR failed'') example_state)"
proof -
  define ev where "ev = example_iteration (Inl GrabError)"
  define ev_c where
    "ev_c = (example_iteration (Inr ([''main_menu'', ''training_button''], [])))
              \<lparr>click_ok := False\<rparr>"
  define ev_h where
    "ev_h = (example_iteration (Inr ([''main_menu''], [])))
              \<lparr>grab2 := (\<lambda>region. Inl GrabError)\<rparr>"
  define sd where "sd = emit (Log INFO ''Current screen: main_menu'') example_state"
  define s_c where "s_c = click_at False 13 22 0.5 (emit (Log INFO ''Handling main menu'') sd)"
  define s_h where
    "s_h = emit (Log ERROR ''Failed to capture screen'') (emit (Log INFO ''Handling main menu'') sd)"
  note world = example_iteration_def example_libs_def example_state_def example_config_def
  have zero: "errors_encountered (session_stats example_state) = 0"
    by (simp add: example_state_def)
  have quiet_c: "\<forall>ev\<in>set [ev_c]. \<not> keyboard_interrupt ev"
    by (simp add: ev_c_def example_iteration_def keyboard_interrupt_def)
  have hyp_c: "\<not> keyboard_interrupt ev_c \<and> \<not> click_ok ev_c \<and>
      capture_screen (os1 ev_c) (grab1 ev_c) None example_state
        = (Some ([''main_menu'', ''training_button''], []), example_state) \<and>
      check_for_errors example_libs (Some ([''main_menu'', ''training_button''], []))
        example_state = (False, example_state) \<and>
      detect_screen example_libs (Some ([''main_menu'', ''training_button''], [])) example_state
        = (Inr ''main_menu'', example_state) \<and>
      \<not> (''main_menu'' = ''unknown'' \<and> (10::int) \<le> 0 + 1) \<and>
      dispatch example_libs ev_c ''main_menu'' (Some ([''main_menu'', ''training_button''], []))
        (emit (Log INFO (''Current screen: '' @ ''main_menu'')) example_state) = (Inr True, s_c)"
    by (simp add: ev_c_def s_c_def sd_def world keyboard_interrupt_def capture_screen_def
          get_game_region_def check_for_errors_def ocr_text_def strip_def lower_def
          error_indicators_def detect_screen_def find_template_def dispatch_def
          handle_main_menu_def click_centre_def centre_def click_at_def click_failed_def
          count_error_def emit_def Let_def)
  have hyp_h: "\<not> keyboard_interrupt ev_h \<and>
      capture_screen (os1 ev_h) (grab1 ev_h) None example_state
        = (Some ([''main_menu''], []), example_state) \<and>
      check_for_errors example_libs (Some ([''main_menu''], [])) example_state
        = (False, example_state) \<and>
      detect_screen example_libs (Some ([''main_menu''], [])) example_state
        = (Inr ''main_menu'', example_state) \<and>
      \<not> (''main_menu'' = ''unknown'' \<and> (10::int) \<le> 0 + 1) \<and>
      dispatch example_libs ev_h ''main_menu'' (Some ([''main_menu''], []))
        (emit (Log INFO (''Current screen: '' @ ''main_menu'')) example_state) = (Inl CvError, s_h)"
    by (simp add: ev_h_def s_h_def sd_def world keyboard_interrupt_def capture_screen_def
          capture_failed_def get_game_region_def check_for_errors_def ocr_text_def strip_def
          lower_def error_indicators_def detect_screen_def find_template_def dispatch_def
          handle_main_menu_def emit_def Let_def)
  have raises: "\<forall>r. \<exists>e. grab1 ev r = Inl e"
    by (simp add: ev_def example_iteration_def)
  have ocr: "\<exists>e. image_to_string example_libs_ocr_fails ([''main_menu''], ''hello'') None = Inl e"
    by (simp add: example_libs_ocr_fails_def)
  have loaded: "''training_button'' \<in> dom (templates example_state)"
    by (simp add: example_state_def)
  have ev_simps: "\<not> keyboard_interrupt ev" "os1 ev = Inr None"
    by (simp_all add: ev_def example_iteration_def keyboard_interrupt_def)
  note click =
    transient_faults_caught[where L=example_libs and evs="[ev_c]" and s=example_state and c=0
      and ev=ev_c and frame="([''main_menu'', ''training_button''], [])"
      and ?s1.0=example_state and ?s2.0=example_state and ?s3.0=example_state
      and name="''main_menu''" and ?s5.0=s_c]
  from click[THEN conjunct2, THEN conjunct1, THEN mp, OF quiet_c]
  have w1: "run_loop example_libs [ev_c] example_state 0 \<noteq> Raised KeyboardInterrupt example_state"
    by blast
  from click[THEN conjunct2, THEN conjunct2, THEN conjunct1, THEN mp, OF hyp_c] zero
  have w2: "iteration_step example_libs ev_c example_state 0 = (Continue, emit (Sleep 0.5) s_c, 0)"
    and w3: "errors_encountered (session_stats s_c) = 1"
    by simp_all
  note handler =
    transient_faults_caught[where L=example_libs and s=example_state and c=0
      and ev=ev_h and frame="([''main_menu''], [])"
      and ?s1.0=example_state and ?s2.0=example_state and ?s3.0=example_state
      and name="''main_menu''" and ?s5.0=s_h and err=CvError
      and template_name="''training_button''" and threshold="0.8"]
  from handler[THEN conjunct2, THEN conjunct2, THEN conjunct2, THEN conjunct2, THEN conjunct2,
         THEN conjunct2, THEN conjunct2, THEN conjunct1, THEN mp, OF loaded]
  have w6: "find_template example_libs ''training_button'' None 0.8 example_state
              = (Inl CvError, example_state)" .
  from handler[THEN conjunct2, THEN conjunct2, THEN conjunct2, THEN conjunct2, THEN conjunct2,
         THEN conjunct2, THEN conjunct2, THEN conjunct2, THEN conjunct1, THEN mp, OF hyp_h]
  have w7: "iteration_step example_libs ev_h example_state 0 =
              (Continue,
               emit (Sleep 2) (count_error (emit (Log ERROR ''Error in automation loop'') s_h)),
               0)"
    by simp
  note caught =
    transient_faults_caught[where L=example_libs_ocr_fails and s=example_state and c=0
      and grab="grab1 ev" and os="Inr None" and region=None and ev=ev
      and frame="([''main_menu''], ''hello'')"]
  from caught[THEN conjunct2, THEN conjunct2, THEN conjunct2, THEN conjunct2, THEN conjunct2,
         THEN conjunct1, THEN mp, OF raises]
  have none: "fst (capture_screen (Inr None) (grab1 ev) None example_state) = None"
    by simp
  with ev_simps have "\<not> keyboard_interrupt ev \<and>
      fst (capture_screen (os1 ev) (grab1 ev) None example_state) = None"
    by simp
  from caught[THEN conjunct2, THEN conjunct2, THEN conjunct2, THEN conjunct2, THEN conjunct2,
         THEN conjunct2, THEN conjunct1, THEN mp, OF this]
  have cont: "fst (iteration_step example_libs_ocr_fails ev example_state 0) = Continue"
    by simp
  from caught[THEN conjunct2, THEN conjunct2, THEN conjunct2, THEN conjunct2, THEN conjunct2,
         THEN conjunct2, THEN conjunct2, THEN conjunct2, THEN conjunct2, THEN mp, OF ocr]
  have chk: "check_for_errors example_libs_ocr_fails (Some ([''main_menu''], ''hello''))
               example_state = (False, emit (Log ERROR ''OCR failed'') example_state)"
    by simp
  from w1 w2 w3 none cont w6 w7 chk show ?thesis
    unfolding ev_def ev_c_def ev_h_def s_c_def s_h_def sd_def by simp
qed

subsection \<open>C1: the ceiling of ten consecutive unknown screens\<close>

text \<open>
  C1. An iteration that classifies its frame sets the counter of consecutive unknown screens
  from the classification: to zero for any name other than \<open>unknown\<close>, to one more for
  \<open>unknown\<close>; it leaves the loop exactly when the name is \<open>unknown\<close> and the counter
  reaches ten. (An iteration that classifies nothing, after a failed capture or a hit of the
  error scan, leaves the counter as it is.) For a run of the loop from counter zero over any
  iterations without a stop request or an interrupt, let \<open>names\<close> be the classifications
  logged during the run, in order. The loop has returned, with \<open>running\<close> false, exactly when
  \<open>names\<close> contains ten \<open>unknown\<close> in a row, and then these are its last ten entries and there
  were no ten in a row before: it stopped at the tenth and not earlier. While the loop has not
  returned, it is running and its counter is the number of \<open>unknown\<close> at the end of \<open>names\<close>;
  in particular, when the last classification is not \<open>unknown\<close> (nine \<open>unknown\<close> and then a
  known screen, say), the loop is running with counter zero.
\<close>

theorem unknown_ceiling:
  "(\<not> keyboard_interrupt ev \<and>
    capture_screen (os1 ev) (grab1 ev) None s = (Some frame, s1) \<and>
    check_for_errors L (Some frame) s1 = (False, s2) \<and>
    detect_screen L (Some frame) s2 = (Inr name, s3) \<longrightarrow>
      (case iteration_step L ev s c of
         (ctl, s', c') \<Rightarrow>
           running s' = running s \<and>
           c' = (if name = ''unknown'' then c + 1 else 0) \<and>
           (ctl = Break \<longleftrightarrow> name = ''unknown'' \<and> 10 \<le> c + 1))) \<and>
   (running s \<and> (\<forall>ev\<in>set evs. \<not> keyboard_interrupt ev \<and> \<not> stop_request ev) \<longrightarrow>
      (\<exists>names.
         classified (trace (outcome_state (run_loop L evs s 0))) = classified (trace s) @ names \<and>
         ((\<exists>s'. run_loop L evs s 0 = Returned s') \<longleftrightarrow> sublist ten_unknown names) \<and>
         (names \<noteq> [] \<and> last names \<noteq> ''unknown'' \<longrightarrow> (\<exists>s'. run_loop L evs s 0 = In_loop s' 0)) \<and>
         (case run_loop L evs s 0 of
            In_loop s' c' \<Rightarrow>
              running s' \<and> c' = int (trailing_unknown names) \<and> \<not> sublist ten_unknown names
          | Returned s' \<Rightarrow>
              \<not> running s' \<and> suffix ten_unknown names \<and>
              \<not> sublist ten_unknown (butlast names)
          | Raised e s' \<Rightarrow> False)))"
proof (intro conjI impI)
  assume "\<not> keyboard_interrupt ev \<and>
    capture_screen (os1 ev) (grab1 ev) None s = (Some frame, s1) \<and>
    check_for_errors L (Some frame) s1 = (False, s2) \<and>
    detect_screen L (Some frame) s2 = (Inr name, s3)"
  then have h: "\<not> keyboard_interrupt ev"
    "capture_screen (os1 ev) (grab1 ev) None s = (Some frame, s1)"
    "check_for_errors L (Some frame) s1 = (False, s2)"
    "detect_screen L (Some frame) s2 = (Inr name, s3)"
    by simp_all
  show "case iteration_step L ev s c of
         (ctl, s', c') \<Rightarrow>
           running s' = running s \<and>
           c' = (if name = ''unknown'' then c + 1 else 0) \<and>
           (ctl = Break \<longleftrightarrow> name = ''unknown'' \<and> 10 \<le> c + 1)"
    by (rule iteration_step_classified[OF h])
next
  assume a: "running s \<and> (\<forall>ev\<in>set evs. \<not> keyboard_interrupt ev \<and> \<not> stop_request ev)"
  have "\<not> sublist ten_unknown []" by (simp add: ten_unknown_def)
  with a run_loop_counter[of s evs "classified (trace s)" "[]" 0 L]
  obtain names where ok: "counter_ok (classified (trace s)) names (run_loop L evs s 0)"
    by (auto simp: trailing_unknown_Nil)
  have ten: "ten_unknown \<noteq> []" "last ten_unknown = ''unknown''"
    by (simp_all add: ten_unknown_def)
  have last_unknown: "last names = ''unknown''" if "suffix ten_unknown names"
    using that ten by (auto simp: suffix_def)
  have zero: "trailing_unknown names = 0" if "names \<noteq> []" "last names \<noteq> ''unknown''"
    using that by (cases names rule: rev_cases) (simp_all add: trailing_unknown_snoc)
  show "\<exists>names.
         classified (trace (outcome_state (run_loop L evs s 0))) = classified (trace s) @ names \<and>
         ((\<exists>s'. run_loop L evs s 0 = Returned s') \<longleftrightarrow> sublist ten_unknown names) \<and>
         (names \<noteq> [] \<and> last names \<noteq> ''unknown'' \<longrightarrow> (\<exists>s'. run_loop L evs s 0 = In_loop s' 0)) \<and>
         (case run_loop L evs s 0 of
            In_loop s' c' \<Rightarrow>
              running s' \<and> c' = int (trailing_unknown names) \<and> \<not> sublist ten_unknown names
          | Returned s' \<Rightarrow>
              \<not> running s' \<and> suffix ten_unknown names \<and>
              \<not> sublist ten_unknown (butlast names)
          | Raised e s' \<Rightarrow> False)"
  proof (intro exI[of _ names] conjI impI)
    show "classified (trace (outcome_state (run_loop L evs s 0))) = classified (trace s) @ names"
      using ok by (simp add: counter_ok_def)
    show "(\<exists>s'. run_loop L evs s 0 = Returned s') \<longleftrightarrow> sublist ten_unknown names"
      using ok by (cases "run_loop L evs s 0") (auto simp: counter_ok_def)
    show "\<exists>s'. run_loop L evs s 0 = In_loop s' 0"
      if "names \<noteq> [] \<and> last names \<noteq> ''unknown''"
      using ok that zero last_unknown
      by (cases "run_loop L evs s 0") (auto simp: counter_ok_def)
    show "case run_loop L evs s 0 of
            In_loop s' c' \<Rightarrow>
              running s' \<and> c' = int (trailing_unknown names) \<and> \<not> sublist ten_unknown names
          | Returned s' \<Rightarrow>
              \<not> running s' \<and> suffix ten_unknown names \<and>
              \<not> sublist ten_unknown (butlast names)
          | Raised e s' \<Rightarrow> False"
      using ok by (simp add: counter_ok_def)
  qed
qed

theorem unknown_ceiling_witness:
  "(case run_loop example_libs
           (replicate 9 (example_iteration (Inr ([], []))) @
            [example_iteration (Inr ([''main_menu''], []))]) example_state 0 of
      In_loop s' c' \<Rightarrow> running s' \<and> c' = 0
    | Returned s' \<Rightarrow> False
    | Raised e s' \<Rightarrow> False) \<and>
   (case run_loop example_libs (replicate 10 (example_iteration (Inr ([], [])))) example_state 0 of
      In_loop s' c' \<Rightarrow> False
    | Returned s' \<Rightarrow> \<not> running s'
    | Raised e s' \<Rightarrow> False)"
proof -
  define ev_u where "ev_u = example_iteration (Inr ([], []))"
  define ev_m where "ev_m = example_iteration (Inr ([''main_menu''], []))"
  define S where "S tr = example_state\<lparr>trace := tr\<rparr>" for tr
  define unknown_logs where "unknown_logs =
     [Log WARNING ''Template training_screen not found'',
      Log WARNING ''Template race_screen not found'',
      Log WARNING ''Template event_screen not found'',
      Log INFO ''Current screen: unknown'']"
  define fallback_logs where "fallback_logs =
     [Log WARNING ''Unknown screen detected: unknown'',
      Log WARNING ''Template continue_button not found'', Sleep 1]"
  define menu_logs where "menu_logs =
     [Log INFO ''Current screen: main_menu'', Log INFO ''Handling main menu'', Sleep 1]"
  define stop_logs where "stop_logs =
     [Log ERROR ''Too many unknown screens, stopping automation'']"
  note run_defs = iteration_step_def loop_try_def capture_screen_def
      get_game_region_def check_for_errors_def ocr_text_def detect_screen_def find_template_def
      dispatch_def handle_main_menu_def fallback_continue_def pace_def
      example_libs_def example_state_def example_iteration_def example_config_def emit_def
      lower_def strip_def error_indicators_def Let_def max_unknown_screens_def
  have U: "iteration_step example_libs ev_u (S tr) c =
             (if 10 \<le> c + 1
              then (Break, S (tr @ unknown_logs @ stop_logs), c + 1)
              else (Continue, S (tr @ unknown_logs @ fallback_logs), c + 1))" for tr c
    by (simp add: run_defs ev_u_def S_def unknown_logs_def fallback_logs_def stop_logs_def)
  have M: "iteration_step example_libs ev_m (S tr) c = (Continue, S (tr @ menu_logs), 0)"
    for tr c
    by (simp add: run_defs ev_m_def S_def menu_logs_def)
  have S: "running (S tr)" "example_state = S []" "classified (trace (S tr)) = classified tr"
    for tr
    by (simp_all add: S_def example_state_def)
  have E: "\<not> stop_request ev_u" "\<not> stop_request ev_m" "\<not> keyboard_interrupt ev_u"
    "\<not> keyboard_interrupt ev_m"
    by (simp_all add: ev_u_def ev_m_def example_iteration_def keyboard_interrupt_def)
  have C: "classified unknown_logs = [''unknown'']" "classified fallback_logs = []"
    "classified menu_logs = [''main_menu'']" "classified stop_logs = []"
    by (simp_all add: classified_simps unknown_logs_def fallback_logs_def menu_logs_def
          stop_logs_def)
  define pass_logs where "pass_logs = unknown_logs @ fallback_logs"
  have R: "classified pass_logs = [''unknown'']"
    by (simp add: pass_logs_def classified_simps C)
  have U': "iteration_step example_libs ev_u (S tr) c =
             (if 10 \<le> c + 1
              then (Break, S (tr @ unknown_logs @ stop_logs), c + 1)
              else (Continue, S (tr @ pass_logs), c + 1))" for tr c
    by (simp add: U pass_logs_def)
  have nine: "run_loop example_libs (replicate 9 ev_u @ [ev_m]) example_state 0 =
        In_loop (S (((((((((pass_logs @ pass_logs) @ pass_logs) @ pass_logs) @ pass_logs) @ pass_logs) @ pass_logs)
                       @ pass_logs) @ pass_logs) @ menu_logs)) 0"
    by (simp add: U' M S(1,2) E eval_nat_numeral del: append_assoc)
  have ten: "run_loop example_libs (replicate 10 ev_u) example_state 0 =
        Returned (finish (S (((((((((pass_logs @ pass_logs) @ pass_logs) @ pass_logs) @ pass_logs) @ pass_logs)
                       @ pass_logs) @ pass_logs) @ pass_logs) @ unknown_logs @ stop_logs)))"
    by (simp add: U' S(1,2) E eval_nat_numeral del: append_assoc)
  have names9: "classified (trace (outcome_state
        (run_loop example_libs (replicate 9 ev_u @ [ev_m]) example_state 0))) =
      replicate 9 ''unknown'' @ [''main_menu'']"
    unfolding nine
    by (simp add: outcome_state_def S(3) classified_simps R C eval_nat_numeral)
  have names10: "classified (trace (outcome_state
        (run_loop example_libs (replicate 10 ev_u) example_state 0))) = ten_unknown"
    unfolding ten
    by (simp add: outcome_state_def finish_simps S(3) classified_simps R C eval_nat_numeral
          ten_unknown_def)
  have start: "classified (trace example_state) = []" "running example_state"
    by (simp_all add: example_state_def classified_simps)
  have hyp9: "running example_state \<and>
      (\<forall>ev\<in>set (replicate 9 ev_u @ [ev_m]). \<not> keyboard_interrupt ev \<and> \<not> stop_request ev)"
    using E start by auto
  have hyp10: "running example_state \<and>
      (\<forall>ev\<in>set (replicate 10 ev_u). \<not> keyboard_interrupt ev \<and> \<not> stop_request ev)"
    using E start by auto
  from unknown_ceiling[where c=0, THEN conjunct2, THEN mp, OF hyp9]
  obtain n9 where n9:
    "classified (trace (outcome_state
        (run_loop example_libs (replicate 9 ev_u @ [ev_m]) example_state 0))) =
       classified (trace example_state) @ n9"
    "n9 \<noteq> [] \<and> last n9 \<noteq> ''unknown'' \<longrightarrow>
       (\<exists>s'. run_loop example_libs (replicate 9 ev_u @ [ev_m]) example_state 0 = In_loop s' 0)"
    "case run_loop example_libs (replicate 9 ev_u @ [ev_m]) example_state 0 of
            In_loop s' c' \<Rightarrow>
              running s' \<and> c' = int (trailing_unknown n9) \<and> \<not> sublist ten_unknown n9
          | Returned s' \<Rightarrow>
              \<not> running s' \<and> suffix ten_unknown n9 \<and> \<not> sublist ten_unknown (butlast n9)
          | Raised e s' \<Rightarrow> False"
    by blast
  from n9(1) names9 start have "n9 = replicate 9 ''unknown'' @ [''main_menu'']" by simp
  with n9(2) obtain s9 where
    s9: "run_loop example_libs (replicate 9 ev_u @ [ev_m]) example_state 0 = In_loop s9 0"
    by auto
  with n9(3) have first: "case run_loop example_libs (replicate 9 ev_u @ [ev_m]) example_state 0 of
      In_loop s' c' \<Rightarrow> running s' \<and> c' = 0
    | Returned s' \<Rightarrow> False
    | Raised e s' \<Rightarrow> False"
    by simp
  from unknown_ceiling[where c=0, THEN conjunct2, THEN mp, OF hyp10]
  obtain n10 where n10:
    "classified (trace (outcome_state
        (run_loop example_libs (replicate 10 ev_u) example_state 0))) =
       classified (trace example_state) @ n10"
    "(\<exists>s'. run_loop example_libs (replicate 10 ev_u) example_state 0 = Returned s') \<longleftrightarrow>
       sublist ten_unknown n10"
    "case run_loop example_libs (replicate 10 ev_u) example_state 0 of
            In_loop s' c' \<Rightarrow>
              running s' \<and> c' = int (trailing_unknown n10) \<and> \<not> sublist ten_unknown n10
          | Returned s' \<Rightarrow>
              \<not> running s' \<and> suffix ten_unknown n10 \<and> \<not> sublist ten_unknown (butlast n10)
          | Raised e s' \<Rightarrow> False"
    by blast
  from n10(1) names10 start have "n10 = ten_unknown" by simp
  with n10(2) obtain s10 where
    s10: "run_loop example_libs (replicate 10 ev_u) example_state 0 = Returned s10"
    by auto
  with n10(3) have second: "case run_loop example_libs (replicate 10 ev_u) example_state 0 of
      In_loop s' c' \<Rightarrow> False
    | Returned s' \<Rightarrow> \<not> running s'
    | Raised e s' \<Rightarrow> False"
    by simp
  from first second show ?thesis
    unfolding ev_u_def ev_m_def by simp
qed

subsection \<open>C3: the round trip of the coordinate conversions\<close>

text \<open>
  C3, the sentence as it stands fails on a large rectangle. The detector holds the rectangle
  \<open>(0, 0, 2 ^ 70, 1)\<close>, of positive width and height, and the point \<open>(2 ^ 69 + 2 ^ 10, 0)\<close> is
  inside it. The quotient \<open>(2 ^ 69 + 2 ^ 10) / 2 ^ 70\<close> is rounded to the double \<open>1 / 2\<close>, and
  the way back gives \<open>(2 ^ 69, 0)\<close>: 1024 pixels off on the first axis.
\<close>

theorem coordinate_round_trip_counterexample:
  "double_rounding nearest_sample \<and>
   (0::int) < 2 ^ 70 \<and> (0::int) < 1 \<and>
   inside (0, 0, 2 ^ 70, 1) (2 ^ 69 + 2 ^ 10, 0) \<and>
   get_relative_coordinates nearest_sample (1920, 1080) \<lparr>window_rect = Some (0, 0, 2 ^ 70, 1)\<rparr>
       (2 ^ 69 + 2 ^ 10) 0 = Inr (1 / 2, 0) \<and>
   get_absolute_coordinates nearest_sample (1920, 1080) \<lparr>window_rect = Some (0, 0, 2 ^ 70, 1)\<rparr>
       (1 / 2) 0 = Inr (2 ^ 69, 0) \<and>
   \<not> \<bar>2 ^ 69 - (2 ^ 69 + 2 ^ 10)\<bar> \<le> (1::int)"
proof -
  have "\<bar>nearest_sample r - r\<bar> \<le> \<bar>r\<bar> / 2 ^ 53 + 1 / 2 ^ 1075" for r
  proof (cases "r = 1 / 2 + 1 / 2 ^ 60")
    case True
    then show ?thesis by (simp add: nearest_sample_def)
  next
    case False
    then show ?thesis by (simp add: nearest_sample_def del: power_numeral)
  qed
  then have dr: "double_rounding nearest_sample"
    by (simp add: double_rounding_def del: power_numeral)
  have rel: "get_relative_coordinates nearest_sample (1920, 1080)
       \<lparr>window_rect = Some (0, 0, 2 ^ 70, 1)\<rparr> (2 ^ 69 + 2 ^ 10) 0 = Inr (1 / 2, 0)"
    by (simp add: get_relative_coordinates_def true_div_def double_overflow_def
          nearest_sample_def)
  have ab: "get_absolute_coordinates nearest_sample (1920, 1080)
       \<lparr>window_rect = Some (0, 0, 2 ^ 70, 1)\<rparr> (1 / 2) 0 = Inr (2 ^ 69, 0)"
    by (simp add: get_absolute_coordinates_def window_to_screen_def float_mul_int_def
          int_add_float_def to_float_def double_overflow_def nearest_sample_def py_int_def)
  show ?thesis
    using dr rel ab by (simp add: inside_def)
qed

text \<open>
  C3, amended. Let the detector hold a rectangle of positive width and height whose
  coordinates and sizes are 32-bit screen coordinates (at most \<open>2 ^ 31\<close> in magnitude), and let
  \<open>(x, y)\<close> be a point inside it. With Python floats, that is with any rounding of relative
  error at most \<open>2 ^ -53\<close>, neither conversion raises and \<^verbatim>\<open>get_relative_coordinates\<close> followed
  by \<^verbatim>\<open>get_absolute_coordinates\<close> gives a point that differs from \<open>(x, y)\<close> by at most one
  pixel on each axis. With no rectangle cached both conversions use the dimensions of the
  whole display: the first divides \<open>x\<close> and \<open>y\<close> by them (raising \<^verbatim>\<open>ZeroDivisionError\<close> on a
  zero dimension and \<^verbatim>\<open>OverflowError\<close> on a quotient out of the range of a float, \<open>x\<close>
  first), the second multiplies by them (raising \<^verbatim>\<open>OverflowError\<close> on a dimension or a
  product out of range).
\<close>

theorem coordinate_round_trip:
  "(double_rounding fl \<and> window_rect wd = Some (wx, wy, ww, wh) \<and>
    screen_rect (wx, wy, ww, wh) \<and> inside (wx, wy, ww, wh) (x, y) \<longrightarrow>
      (case get_relative_coordinates fl screen wd x y of
         Inl e \<Rightarrow> False
       | Inr (rel_x, rel_y) \<Rightarrow>
           (case get_absolute_coordinates fl screen wd rel_x rel_y of
              Inl e \<Rightarrow> False
            | Inr (abs_x, abs_y) \<Rightarrow> \<bar>abs_x - x\<bar> \<le> 1 \<and> \<bar>abs_y - y\<bar> \<le> 1))) \<and>
   (window_rect wd = None \<longrightarrow>
      get_relative_coordinates fl screen wd x y =
        (if fst screen = 0 then Inl ZeroDivisionError
         else if double_overflow (of_int x / of_int (fst screen)) then Inl OverflowError
         else if snd screen = 0 then Inl ZeroDivisionError
         else if double_overflow (of_int y / of_int (snd screen)) then Inl OverflowError
         else Inr (fl (of_int x / of_int (fst screen)), fl (of_int y / of_int (snd screen)))) \<and>
      get_absolute_coordinates fl screen wd rel_x rel_y =
        (if double_overflow (of_int (fst screen)) \<or>
            double_overflow (rel_x * fl (of_int (fst screen))) \<or>
            double_overflow (of_int (snd screen)) \<or>
            double_overflow (rel_y * fl (of_int (snd screen)))
         then Inl OverflowError
         else Inr (py_int (fl (rel_x * fl (of_int (fst screen)))),
                   py_int (fl (rel_y * fl (of_int (snd screen)))))))"
proof (intro conjI impI)
  assume a: "double_rounding fl \<and> window_rect wd = Some (wx, wy, ww, wh) \<and>
    screen_rect (wx, wy, ww, wh) \<and> inside (wx, wy, ww, wh) (x, y)"
  then have dr: "double_rounding fl" and wr: "window_rect wd = Some (wx, wy, ww, wh)"
    and w: "0 < ww" "ww \<le> 2 ^ 31" "\<bar>wx\<bar> \<le> 2 ^ 31" "wx \<le> x" "x \<le> wx + ww"
    and h: "0 < wh" "wh \<le> 2 ^ 31" "\<bar>wy\<bar> \<le> 2 ^ 31" "wy \<le> y" "y \<le> wy + wh"
    by (simp_all add: screen_rect_def inside_def)
  define qx where "qx = fl (of_int (x - wx) / of_int ww)"
  define qy where "qy = fl (of_int (y - wy) / of_int wh)"
  from axis_round_trip[OF dr w] obtain ax where
    ax: "true_div fl (x - wx) ww = Inr qx" "window_to_screen fl wx ww qx = Inr ax"
        "\<bar>ax - x\<bar> \<le> 1"
    unfolding qx_def by blast
  from axis_round_trip[OF dr h] obtain ay where
    ay: "true_div fl (y - wy) wh = Inr qy" "window_to_screen fl wy wh qy = Inr ay"
        "\<bar>ay - y\<bar> \<le> 1"
    unfolding qy_def by blast
  have rel: "get_relative_coordinates fl screen wd x y = Inr (qx, qy)"
    using wr ax(1) ay(1) by (simp add: get_relative_coordinates_def)
  have ab: "get_absolute_coordinates fl screen wd qx qy = Inr (ax, ay)"
    using wr ax(2) ay(2) by (simp add: get_absolute_coordinates_def)
  show "case get_relative_coordinates fl screen wd x y of
         Inl e \<Rightarrow> False
       | Inr (rel_x, rel_y) \<Rightarrow>
           (case get_absolute_coordinates fl screen wd rel_x rel_y of
              Inl e \<Rightarrow> False
            | Inr (abs_x, abs_y) \<Rightarrow> \<bar>abs_x - x\<bar> \<le> 1 \<and> \<bar>abs_y - y\<bar> \<le> 1)"
    using ax(3) ay(3) by (simp add: rel ab)
next
  assume "window_rect wd = None"
  then show "get_relative_coordinates fl screen wd x y =
        (if fst screen = 0 then Inl ZeroDivisionError
         else if double_overflow (of_int x / of_int (fst screen)) then Inl OverflowError
         else if snd screen = 0 then Inl ZeroDivisionError
         else if double_overflow (of_int y / of_int (snd screen)) then Inl OverflowError
         else Inr (fl (of_int x / of_int (fst screen)), fl (of_int y / of_int (snd screen))))"
    by (simp add: get_relative_coordinates_def true_div_def)
next
  assume "window_rect wd = None"
  then show "get_absolute_coordinates fl screen wd rel_x rel_y =
        (if double_overflow (of_int (fst screen)) \<or>
            double_overflow (rel_x * fl (of_int (fst screen))) \<or>
            double_overflow (of_int (snd screen)) \<or>
            double_overflow (rel_y * fl (of_int (snd screen)))
         then Inl OverflowError
         else Inr (py_int (fl (rel_x * fl (of_int (fst screen)))),
                   py_int (fl (rel_y * fl (of_int (snd screen))))))"
    by (simp add: get_absolute_coordinates_def display_to_screen_def float_mul_int_def
          to_float_def)
qed

theorem coordinate_round_trip_witness:
  "double_rounding shrink \<and> screen_rect (100, 50, 800, 600) \<and>
   inside (100, 50, 800, 600) (333, 77) \<and>
   get_relative_coordinates shrink (1920, 1080) \<lparr>window_rect = Some (100, 50, 800, 600)\<rparr>
       333 77 = Inr (shrink (233 / 800), shrink (27 / 600)) \<and>
   get_absolute_coordinates shrink (1920, 1080) \<lparr>window_rect = Some (100, 50, 800, 600)\<rparr>
       (shrink (233 / 800)) (shrink (27 / 600)) = Inr (332, 76) \<and>
   (case get_relative_coordinates shrink (1920, 1080)
           \<lparr>window_rect = Some (100, 50, 800, 600)\<rparr> 333 77 of
      Inl e \<Rightarrow> False
    | Inr (rel_x, rel_y) \<Rightarrow>
        (case get_absolute_coordinates shrink (1920, 1080)
                \<lparr>window_rect = Some (100, 50, 800, 600)\<rparr> rel_x rel_y of
           Inl e \<Rightarrow> False
         | Inr (abs_x, abs_y) \<Rightarrow> \<bar>abs_x - 333\<bar> \<le> 1 \<and> \<bar>abs_y - 77\<bar> \<le> 1))"
proof -
  have hyp: "double_rounding shrink \<and>
      window_rect \<lparr>window_rect = Some (100, 50, 800, 600)\<rparr> = Some (100, 50, 800, 600) \<and>
      screen_rect (100, 50, 800, 600) \<and> inside (100, 50, 800, 600) (333, 77)"
    by (simp add: double_rounding_shrink screen_rect_def inside_def)
  have rel: "get_relative_coordinates shrink (1920, 1080)
       \<lparr>window_rect = Some (100, 50, 800, 600)\<rparr> 333 77 =
         Inr (shrink (233 / 800), shrink (27 / 600))"
    by (simp add: get_relative_coordinates_def true_div_def double_overflow_def)
  have ab: "get_absolute_coordinates shrink (1920, 1080)
       \<lparr>window_rect = Some (100, 50, 800, 600)\<rparr>
       (shrink (233 / 800)) (shrink (27 / 600)) = Inr (332, 76)"
    by (simp add: get_absolute_coordinates_def window_to_screen_def int_add_float_def
          float_mul_int_def to_float_def double_overflow_def shrink_def py_int_def)
  from coordinate_round_trip[where screen="(1920, 1080)", THEN conjunct1, THEN mp, OF hyp]
       hyp rel ab
  show ?thesis by simp
qed

end
